theory Spec2Isabelle
  imports Complex_Main "HOL-Library.Multiset"
begin

section \<open>The stamp card component (src/app/components/stampCard.tsx)\<close>

text \<open>
  The component keeps seven pieces of React state, starts one fetch per identifier,
  derives a sorted dispenser list from each fetched record, and renders a two-sided card.
  Every handler and effect of the component is a function on the record \<open>card\<close> below;
  what the component draws is the value of \<open>StampCard\<close>.
\<close>

subsection \<open>The fetched data\<close>

text \<open>
  \<open>StampInfoResponse\<close> and \<open>Dispenser\<close> are declared in \<^verbatim>\<open>../utils/getStampInfo\<close>; the fields
  below are the ones the component reads. \<open>btcrate\<close> is a finite number, held as the
  rational it denotes. \<open>stamp_url\<close> and \<open>dispensers\<close> are read through \<^verbatim>\<open>||\<close> and \<^verbatim>\<open>&&\<close>,
  so they may be absent. \<open>stamp_mimetype\<close> is read without such a guard, and a record
  may still come without it (\<open>null\<close> or no such key): \<open>None\<close> is that record.
\<close>

record stamp =
  cpid :: string
  stamp_mimetype :: "string option"
  stamp_base64 :: string
  stamp_url :: "string option"

record dispenser =
  source :: string
  btcrate :: rat
  give_remaining :: nat
  escrow_quantity :: nat

record stamp_data =
  stamp :: stamp
  dispensers :: "dispenser list option"

subsection \<open>Decoding the payload: \<open>atob\<close>\<close>

text \<open>
  \<open>atob\<close> is the platform's forgiving-base64 decoder: ASCII whitespace is dropped, one or
  two trailing \<open>=\<close> are dropped when the length is a multiple of four, a remaining length
  of 1 modulo 4 or any character outside the alphabet (\<open>A\<close> to \<open>Z\<close>, \<open>a\<close> to \<open>z\<close>, \<open>0\<close> to
  \<open>9\<close>, \<open>+\<close>, \<open>/\<close>, valued 0 to 63 in that order) raises \<open>InvalidCharacterError\<close>,
  and otherwise every four characters give three bytes (a final group of two or three
  characters gives one or two bytes).
\<close>

datatype fault = InvalidCharacterError | TypeError

definition is_ascii_whitespace :: "char \<Rightarrow> bool" where
  "is_ascii_whitespace c = (c \<in> set [CHR 0x09, CHR 0x0A, CHR 0x0C, CHR 0x0D, CHR 0x20])"

definition sextet :: "char \<Rightarrow> nat option" where
  "sextet c =
     (let n = (of_char c :: nat)
      in if 65 \<le> n \<and> n \<le> 90 then Some (n - 65)
         else if 97 \<le> n \<and> n \<le> 122 then Some (n - 71)
         else if 48 \<le> n \<and> n \<le> 57 then Some (n + 4)
         else if n = 43 then Some 62
         else if n = 47 then Some 63
         else None)"

definition strip_padding :: "string \<Rightarrow> string" where
  "strip_padding data =
     (if 2 \<le> length data \<and> last data = CHR ''='' \<and> last (butlast data) = CHR ''=''
      then butlast (butlast data)
      else if data \<noteq> [] \<and> last data = CHR ''='' then butlast data
      else data)"

fun sextets_to_bytes :: "nat list \<Rightarrow> nat list" where
  "sextets_to_bytes (a # b # c # d # rest) =
     (let n = ((a * 64 + b) * 64 + c) * 64 + d
      in (n div 65536) # ((n div 256) mod 256) # (n mod 256) # sextets_to_bytes rest)"
| "sextets_to_bytes [a, b, c] = (let n = (a * 64 + b) * 64 + c in [n div 1024, (n div 4) mod 256])"
| "sextets_to_bytes [a, b] = [(a * 64 + b) div 16]"
| "sextets_to_bytes _ = []"

definition atob :: "string \<Rightarrow> fault + string" where
  "atob encoded =
     (let spaceless = filter (\<lambda>c. \<not> is_ascii_whitespace c) encoded;
          data = (if length spaceless mod 4 = 0 then strip_padding spaceless else spaceless)
      in if length data mod 4 = 1 then Inl InvalidCharacterError
         else case those (map sextet data) of
                None \<Rightarrow> Inl InvalidCharacterError
              | Some sextets \<Rightarrow> Inr (map char_of (sextets_to_bytes sextets)))"

subsection \<open>Helpers of the module\<close>

definition convertBase64ToImage :: "string \<Rightarrow> string \<Rightarrow> string" where
  "convertBase64ToImage base64 mimeType = ''data:'' @ mimeType @ '';base64,'' @ base64"

definition startsWith :: "string \<Rightarrow> string \<Rightarrow> bool" where
  "startsWith s p = (take (length p) s = p)"

definition spaces :: "nat \<Rightarrow> string" where
  "spaces n = replicate n (CHR '' '')"

definition styleContent :: string where
  "styleContent =
     [CHR 0x0A] @ spaces 16 @ ''<style>'' @
     [CHR 0x0A] @ spaces 20 @ ''body {'' @
     [CHR 0x0A] @ spaces 24 @ ''margin: 0;'' @
     [CHR 0x0A] @ spaces 24 @ ''overflow: hidden;'' @
     [CHR 0x0A] @ spaces 20 @ ''}'' @
     [CHR 0x0A] @ spaces 16 @ ''</style>'' @
     [CHR 0x0A] @ spaces 12"

definition iframe_sandbox :: string where
  "iframe_sandbox =
     ''allow-scripts allow-same-origin  allow-forms allow-popups  allow-orientation-lock allow-pointer-lock allow-presentation allow-top-navigation allow-top-navigation-by-user-activation''"

text \<open>
  The \<open>sandbox\<close> attribute is a set of space-separated tokens. A sandboxed frame is given
  a unique opaque origin (and with it no view of the embedding page's storage, cookies or
  document) unless \<open>allow-same-origin\<close> is among the tokens; it may run scripts only with
  \<open>allow-scripts\<close>; it may navigate the top-level page at any moment with
  \<open>allow-top-navigation\<close>, and only during a user gesture when just
  \<open>allow-top-navigation-by-user-activation\<close> is given.
\<close>

fun split_tokens :: "string \<Rightarrow> string \<Rightarrow> string list" where
  "split_tokens cur [] = (if cur = [] then [] else [cur])"
| "split_tokens cur (c # cs) =
     (if is_ascii_whitespace c
      then (if cur = [] then split_tokens [] cs else cur # split_tokens [] cs)
      else split_tokens (cur @ [c]) cs)"

definition sandbox_tokens :: "string \<Rightarrow> string list" where
  "sandbox_tokens attr = split_tokens [] attr"

definition opaque_origin :: "string \<Rightarrow> bool" where
  "opaque_origin attr = (''allow-same-origin'' \<notin> set (sandbox_tokens attr))"

definition scripts_allowed :: "string \<Rightarrow> bool" where
  "scripts_allowed attr = (''allow-scripts'' \<in> set (sandbox_tokens attr))"

definition top_navigation_needs_gesture :: "string \<Rightarrow> bool" where
  "top_navigation_needs_gesture attr = (''allow-top-navigation'' \<notin> set (sandbox_tokens attr))"

definition isolated :: "string \<Rightarrow> bool" where
  "isolated attr = (opaque_origin attr \<and> top_navigation_needs_gesture attr)"

subsection \<open>Sorting the dispensers\<close>

text \<open>
  \<^verbatim>\<open>[...list].sort(compareFn)\<close> is a stable sort: an element moves in front of another
  only where the comparator is positive for the pair in their present order. The
  comparator of the component is the difference of the two rates
  (\<^verbatim>\<open>parseFloat(x.toString())\<close> gives back the finite number \<open>x\<close>), and the sign of the
  difference of two finite numbers is the sign of their exact difference.
\<close>

definition compareFn :: "dispenser \<Rightarrow> dispenser \<Rightarrow> rat" where
  "compareFn a b = btcrate a - btcrate b"

fun place :: "('a \<Rightarrow> 'a \<Rightarrow> rat) \<Rightarrow> 'a \<Rightarrow> 'a list \<Rightarrow> 'a list" where
  "place cmp a [] = [a]"
| "place cmp a (b # bs) = (if 0 < cmp a b then b # place cmp a bs else a # b # bs)"

definition array_sort :: "('a \<Rightarrow> 'a \<Rightarrow> rat) \<Rightarrow> 'a list \<Rightarrow> 'a list" where
  "array_sort cmp xs = foldr (place cmp) xs []"

subsection \<open>The component's state\<close>

text \<open>
  The options of a call of \<open>toast\<close>, and a toast on the screen with the time at which it
  was raised, in milliseconds.
\<close>

record toast_options =
  title :: string
  description :: string
  duration :: nat
  isClosable :: bool
  position :: string

record shown_toast =
  options :: toast_options
  raisedAt :: nat

text \<open>
  The first eight fields are the prop and the seven \<open>useState\<close> cells. \<open>inFlight\<close> lists
  the identifiers whose fetch has been started and has not answered yet, oldest first.
  \<open>shownFor\<close> is bookkeeping that no handler reads: the identifier whose fetch delivered
  the record now in \<open>stampData\<close>. \<open>toasts\<close> and \<open>clipboard\<close> are the two things outside
  the component that \<open>handleCopyAddress\<close> writes to, and \<open>clock\<close> is the time in
  milliseconds.
\<close>

record card =
  stampId :: string
  stampData :: "stamp_data option"
  isDispenserOpen :: bool
  loading :: bool
  error :: "string option"
  isFlipped :: bool
  dispensersState :: "dispenser list"
  selectedDispenser :: "dispenser option"
  inFlight :: "string list"
  shownFor :: "string option"
  toasts :: "shown_toast list"
  clipboard :: string
  clock :: nat

definition mount :: "string \<Rightarrow> card" where
  "mount i =
     \<lparr> stampId = i, stampData = None, isDispenserOpen = False, loading = True,
       error = None, isFlipped = False, dispensersState = [], selectedDispenser = None,
       inFlight = [i], shownFor = None, toasts = [], clipboard = [], clock = 0 \<rparr>"

definition drop_nth :: "nat \<Rightarrow> 'a list \<Rightarrow> 'a list" where
  "drop_nth n xs = take n xs @ drop (Suc n) xs"

text \<open>The effect that depends on \<open>stampData\<close> (lines 136 to 142).\<close>

definition stampDataEffect :: "card \<Rightarrow> card" where
  "stampDataEffect s =
     (case stampData s of
        None \<Rightarrow> s
      | Some d \<Rightarrow>
          (case dispensers d of
             None \<Rightarrow> s
           | Some ds \<Rightarrow>
               if 0 < length ds
               then (let sortedDispensers = array_sort compareFn ds
                     in s\<lparr> dispensersState := sortedDispensers,
                           selectedDispenser :=
                             (case sortedDispensers of [] \<Rightarrow> None | first # _ \<Rightarrow> Some first) \<rparr>)
               else s))"

text \<open>
  \<open>fetchData\<close> (lines 123 to 132), cut at its \<open>await\<close>: the answer of the \<open>n\<close>-th fetch in
  flight arrives, as a record or as a rejection. An answer is stored whichever identifier
  it was asked for. Nothing arrives for a fetch that is not in flight.
\<close>

definition fetchResolved :: "nat \<Rightarrow> stamp_data \<Rightarrow> card \<Rightarrow> card" where
  "fetchResolved n d s =
     (if n < length (inFlight s)
      then stampDataEffect
             (s\<lparr> stampData := Some d, loading := False,
                 shownFor := Some (inFlight s ! n), inFlight := drop_nth n (inFlight s) \<rparr>)
      else s)"

definition fetchRejected :: "nat \<Rightarrow> card \<Rightarrow> card" where
  "fetchRejected n s =
     (if n < length (inFlight s)
      then s\<lparr> error := Some ''Failed to fetch stamp information.'', loading := False,
              inFlight := drop_nth n (inFlight s) \<rparr>
      else s)"

text \<open>
  The effect that depends on \<open>stampId\<close> (lines 122 to 134) runs when the prop changes:
  it starts a fetch and touches nothing else.
\<close>

definition setStampId :: "string \<Rightarrow> card \<Rightarrow> card" where
  "setStampId j s =
     (if j = stampId s then s else s\<lparr> stampId := j, inFlight := inFlight s @ [j] \<rparr>)"

text \<open>
  The toast library behind \<open>useToast\<close>: \<open>toast\<close> puts a toast on the screen, and the
  library takes it away once the \<open>duration\<close> of its options has passed since it was raised.
\<close>

definition toast :: "toast_options \<Rightarrow> card \<Rightarrow> card" where
  "toast opts s = s\<lparr> toasts := toasts s @ [\<lparr> options = opts, raisedAt = clock s \<rparr>] \<rparr>"

definition timePasses :: "nat \<Rightarrow> card \<Rightarrow> card" where
  "timePasses ms s =
     s\<lparr> clock := clock s + ms,
        toasts := filter (\<lambda>t. clock s + ms < raisedAt t + duration (options t)) (toasts s) \<rparr>"

text \<open>
  \<open>handleCopyAddress\<close> (lines 144 to 152). \<open>navigator.clipboard\<close> is read without a guard:
  where the page has no clipboard (it is \<open>undefined\<close> outside a secure context) the call of
  \<open>writeText\<close> throws a \<open>TypeError\<close> and the handler ends before \<open>toast\<close>. Where the
  clipboard is there, \<open>writeText\<close> answers with a promise that is neither awaited nor given
  a handler: a rejected write changes nothing and the toast is raised all the same.
\<close>

datatype clipboard_api = ClipboardAbsent | WriteGranted | WriteRejected

definition pepeToast :: toast_options where
  "pepeToast =
     \<lparr> title = ''Pepe Says'', description = ''Successfully copied, bro'', duration = 3000,
       isClosable = True, position = ''top-right'' \<rparr>"

definition handleCopyAddress :: "clipboard_api \<Rightarrow> string \<Rightarrow> card \<Rightarrow> fault + card" where
  "handleCopyAddress w address s =
     (case w of
        ClipboardAbsent \<Rightarrow> Inl TypeError
      | WriteGranted \<Rightarrow> Inr (toast pepeToast (s\<lparr> clipboard := address \<rparr>))
      | WriteRejected \<Rightarrow> Inr (toast pepeToast s))"

text \<open>
  \<open>handleClick\<close> (lines 154 to 162). \<open>e.target\<close> is an \<open>HTMLElement\<close> with its tag name, or
  another kind of node. The handler negates the \<open>isFlipped\<close> of the render it was created
  in, which is the first argument.
\<close>

datatype target = HTMLElement string | OtherNode

definition interactiveElements :: "string list" where
  "interactiveElements = [''BUTTON'', ''INPUT'', ''SELECT'', ''TEXTAREA'', ''A'']"

definition handleClick :: "bool \<Rightarrow> target \<Rightarrow> card \<Rightarrow> card" where
  "handleClick rendered_isFlipped t s =
     (case t of
        OtherNode \<Rightarrow> s
      | HTMLElement tagName \<Rightarrow>
          if tagName \<in> set interactiveElements then s
          else s\<lparr> isFlipped := \<not> rendered_isFlipped \<rparr>)"

text \<open>
  The elements of the card that carry an \<open>onClick\<close> of their own, and the bare surface.
  A click runs the handler of the element it lands on and then bubbles to \<open>handleClick\<close>
  on the enclosing box. An element that is not drawn cannot be clicked: a click on it
  leaves the state as it is, and so does any click while the error text is drawn in place
  of the card. A handler that throws leaves the state as it was when it threw; the click
  still reaches \<open>handleClick\<close>, and the exception is reported once the click has been
  dispatched.
\<close>

datatype control =
    Surface
  | CpidText clipboard_api
  | BuyArtButton
  | DispenserMenuItem nat
  | CopyIcon clipboard_api
  | BackButton

definition truthy :: "string option \<Rightarrow> bool" where
  "truthy v = (case v of None \<Rightarrow> False | Some t \<Rightarrow> t \<noteq> [])"

definition after_handler :: "fault + card \<Rightarrow> card \<Rightarrow> card" where
  "after_handler r s = (case r of Inl thrown \<Rightarrow> s | Inr s' \<Rightarrow> s')"

definition onClick :: "control \<Rightarrow> card \<Rightarrow> card" where
  "onClick c s =
     (case c of
        Surface \<Rightarrow> s
      | CpidText w \<Rightarrow>
          (case stampData s of
             Some d \<Rightarrow>
               if loading s then s else after_handler (handleCopyAddress w (cpid (stamp d)) s) s
           | None \<Rightarrow> s)
      | BuyArtButton \<Rightarrow>
          (if \<not> loading s \<and> stampData s \<noteq> None then s\<lparr> isFlipped := True \<rparr> else s)
      | DispenserMenuItem i \<Rightarrow>
          (if i < length (dispensersState s)
           then s\<lparr> selectedDispenser := Some (dispensersState s ! i) \<rparr> else s)
      | CopyIcon w \<Rightarrow>
          (case selectedDispenser s of
             Some sel \<Rightarrow>
               if dispensersState s = [] then s
               else after_handler (handleCopyAddress w (source sel) s) s
           | None \<Rightarrow> s)
      | BackButton \<Rightarrow> s\<lparr> isFlipped := False \<rparr>)"

definition click :: "control \<Rightarrow> target \<Rightarrow> card \<Rightarrow> card" where
  "click c t s = (if truthy (error s) then s else handleClick (isFlipped s) t (onClick c s))"

text \<open>
  The \<open>onClose\<close> of the purchase modal (line 244). The modal is drawn, and can be closed,
  only while \<open>isDispenserOpen\<close> holds and the error text is not drawn in place of the card.
\<close>

definition closeDispenserModal :: "card \<Rightarrow> card" where
  "closeDispenserModal s =
     (if truthy (error s) \<or> \<not> isDispenserOpen s then s else s\<lparr> isDispenserOpen := False \<rparr>)"

text \<open>
  What can happen to a mounted card: the parent passes an identifier, a fetch answers, an
  element is clicked, the modal is closed, time passes. \<open>step\<close> gives the state after an
  event for every state, also for one whose render has raised a fault.
\<close>

datatype event =
    Props string
  | Resolved nat stamp_data
  | Rejected nat
  | Click control target
  | ModalClose
  | TimePasses nat

fun step :: "card \<Rightarrow> event \<Rightarrow> card" where
  "step s (Props j) = setStampId j s"
| "step s (Resolved n d) = fetchResolved n d s"
| "step s (Rejected n) = fetchRejected n s"
| "step s (Click c t) = click c t s"
| "step s ModalClose = closeDispenserModal s"
| "step s (TimePasses ms) = timePasses ms s"

definition run :: "card \<Rightarrow> event list \<Rightarrow> card" where
  "run s evs = foldl step s evs"

text \<open>Answers arrive in the order of their requests when each one is the oldest in flight.\<close>

fun in_request_order :: "event list \<Rightarrow> bool" where
  "in_request_order [] = True"
| "in_request_order (Resolved n d # evs) = (n = 0 \<and> in_request_order evs)"
| "in_request_order (Rejected n # evs) = (n = 0 \<and> in_request_order evs)"
| "in_request_order (e # evs) = in_request_order evs"

subsection \<open>What is drawn\<close>

datatype content = Skeleton | Iframe string string | ImageElement string

text \<open>
  \<open>renderStampContent\<close> (lines 168 to 239); \<open>Iframe srcDoc sandbox\<close>, \<open>ImageElement src\<close>.
  The optional chaining of lines 171 and 207 guards \<open>stampData\<close> alone: on a record without
  content type the comparison with \<open>text/html\<close> is false and the call of \<open>startsWith\<close> throws
  a \<open>TypeError\<close>.
\<close>

definition fallback_src :: "stamp_data option \<Rightarrow> string" where
  "fallback_src sd =
     (case sd of
        None \<Rightarrow> ''AZlogo.webp''
      | Some d \<Rightarrow> if truthy (stamp_url (stamp d)) then the (stamp_url (stamp d)) else ''AZlogo.webp'')"

definition renderStampContent :: "card \<Rightarrow> fault + content" where
  "renderStampContent s =
     (if loading s then Inr Skeleton
      else case stampData s of
        None \<Rightarrow> Inr (ImageElement (fallback_src None))
      | Some d \<Rightarrow>
          if stamp_mimetype (stamp d) = Some ''text/html''
          then (case atob (stamp_base64 (stamp d)) of
                  Inl f \<Rightarrow> Inl f
                | Inr htmlContent \<Rightarrow> Inr (Iframe (styleContent @ htmlContent) iframe_sandbox))
          else (case stamp_mimetype (stamp d) of
                  None \<Rightarrow> Inl TypeError
                | Some mimeType \<Rightarrow>
                    if startsWith mimeType ''image/''
                    then Inr (ImageElement (convertBase64ToImage (stamp_base64 (stamp d)) mimeType))
                    else Inr (ImageElement (fallback_src (Some d)))))"

datatype footer = FooterSkeleton | FooterInfo string | NoFooter

datatype back_side = NoDispensers | DispenserMenu "dispenser list" "dispenser option"

datatype view =
    ErrorText string
  | CardView bool bool content footer back_side

text \<open>
  The component's return value (lines 164 to 403): \<open>CardView modal flipped preview footer back\<close>,
  or the error text alone.
\<close>

definition StampCard :: "card \<Rightarrow> fault + view" where
  "StampCard s =
     (if truthy (error s) then Inr (ErrorText (the (error s)))
      else case renderStampContent s of
        Inl f \<Rightarrow> Inl f
      | Inr preview \<Rightarrow>
          Inr (CardView (isDispenserOpen s) (isFlipped s) preview
                 (if loading s then FooterSkeleton
                  else case stampData s of
                         None \<Rightarrow> NoFooter
                       | Some d \<Rightarrow> FooterInfo (cpid (stamp d)))
                 (if length (dispensersState s) = 0 then NoDispensers
                  else DispenserMenu (dispensersState s)
                         (if dispensersState s \<noteq> [] then selectedDispenser s else None))))"

subsection \<open>Sample records\<close>

definition offer :: "string \<Rightarrow> rat \<Rightarrow> dispenser" where
  "offer addr rate = \<lparr> source = addr, btcrate = rate, give_remaining = 1, escrow_quantity = 1 \<rparr>"

definition pngOffers :: "dispenser list" where
  "pngOffers =
     [offer ''bc1qa'' (2 / 1000), offer ''bc1qb'' (15 / 10000), offer ''bc1qc'' (3 / 1000),
      offer ''bc1qd'' (15 / 10000)]"

definition pngRecord :: stamp_data where
  "pngRecord =
     \<lparr> stamp = \<lparr> cpid = ''A'', stamp_mimetype = Some ''image/png'', stamp_base64 = ''iVBORw0KGgo='',
                 stamp_url = Some ''https://stampchain.io/stamps/A.png'' \<rparr>,
       dispensers = Some pngOffers \<rparr>"

definition htmlRecord :: stamp_data where
  "htmlRecord =
     \<lparr> stamp = \<lparr> cpid = ''B'', stamp_mimetype = Some ''text/html'',
                 stamp_base64 = ''PHNjcmlwdD50b3AubG9jYXRpb24ucmVwbGFjZShuYW1lKTwvc2NyaXB0Pg=='',
                 stamp_url = None \<rparr>,
       dispensers = Some [] \<rparr>"

definition brokenHtmlRecord :: stamp_data where
  "brokenHtmlRecord =
     \<lparr> stamp = \<lparr> cpid = ''C'', stamp_mimetype = Some ''text/html'', stamp_base64 = ''!'',
                 stamp_url = Some ''https://stampchain.io/stamps/C.html'' \<rparr>,
       dispensers = None \<rparr>"

definition brokenPngRecord :: stamp_data where
  "brokenPngRecord =
     \<lparr> stamp = \<lparr> cpid = ''D'', stamp_mimetype = Some ''image/png'', stamp_base64 = ''!'',
                 stamp_url = Some ''https://stampchain.io/stamps/D.png'' \<rparr>,
       dispensers = None \<rparr>"

definition jsonRecord :: stamp_data where
  "jsonRecord =
     \<lparr> stamp = \<lparr> cpid = ''E'', stamp_mimetype = Some ''application/json'', stamp_base64 = ''e30='',
                 stamp_url = Some ''https://stampchain.io/stamps/E.json'' \<rparr>,
       dispensers = Some [] \<rparr>"

definition emptyTypeRecord :: stamp_data where
  "emptyTypeRecord =
     \<lparr> stamp = \<lparr> cpid = ''F'', stamp_mimetype = Some [], stamp_base64 = [],
                 stamp_url = Some [] \<rparr>,
       dispensers = None \<rparr>"

definition untypedRecord :: stamp_data where
  "untypedRecord =
     \<lparr> stamp = \<lparr> cpid = ''G'', stamp_mimetype = None, stamp_base64 = ''iVBORw0KGgo='',
                 stamp_url = Some ''https://stampchain.io/stamps/G.png'' \<rparr>,
       dispensers = None \<rparr>"

subsection \<open>Properties of lists and states\<close>

text \<open>A dispenser list ascends when no element has a higher rate than a later one.\<close>

definition ascending :: "dispenser list \<Rightarrow> bool" where
  "ascending xs = sorted_wrt (\<lambda>a b. btcrate a \<le> btcrate b) xs"

text \<open>The selection is empty exactly when no dispenser is listed, and is otherwise one of the listed dispensers.\<close>

definition selection_ok :: "card \<Rightarrow> bool" where
  "selection_ok s =
     ((selectedDispenser s = None \<longleftrightarrow> dispensersState s = []) \<and>
      (\<forall>sel. selectedDispenser s = Some sel \<longrightarrow> sel \<in> set (dispensersState s)))"

text \<open>
  While answers come back in the order of their requests, the youngest fetch in flight is
  the one for the current identifier, and once nothing is in flight the record on display
  was fetched for the current identifier unless a fetch has failed.
\<close>

definition answered_in_order :: "card \<Rightarrow> bool" where
  "answered_in_order s =
     ((inFlight s \<noteq> [] \<longrightarrow> last (inFlight s) = stampId s) \<and>
      (inFlight s = [] \<longrightarrow> error s \<noteq> None \<or> shownFor s = Some (stampId s)) \<and>
      (shownFor s \<noteq> None \<longrightarrow> stampData s \<noteq> None))"

section \<open>Properties of the sort and of the selection\<close>

lemma compareFn_positive: "0 < compareFn a b \<longleftrightarrow> btcrate b < btcrate a"
  by (simp add: compareFn_def)

lemma mset_place: "mset (place cmp a xs) = add_mset a (mset xs)"
  by (induction xs) auto

lemma mset_array_sort: "mset (array_sort cmp xs) = mset xs"
  unfolding array_sort_def by (induction xs) (auto simp: mset_place)

lemma set_place: "set (place cmp a xs) = insert a (set xs)"
  using mset_place [of cmp a xs] by (metis set_mset_add_mset_insert set_mset_mset)

lemma set_array_sort: "set (array_sort cmp xs) = set xs"
  using mset_array_sort [of cmp xs] by (metis set_mset_mset)

lemma ascending_place: "ascending xs \<Longrightarrow> ascending (place compareFn a xs)"
  unfolding ascending_def
  by (induction xs) (auto simp: compareFn_positive set_place)

lemma ascending_array_sort: "ascending (array_sort compareFn xs)"
proof (induction xs)
  case Nil
  show ?case by (simp add: array_sort_def ascending_def)
next
  case (Cons x xs)
  have "array_sort compareFn (x # xs) = place compareFn x (array_sort compareFn xs)"
    by (simp add: array_sort_def)
  with Cons show ?case by (simp add: ascending_place)
qed

lemma ascending_adjacent:
  "ascending xs \<Longrightarrow> Suc i < length xs \<Longrightarrow> btcrate (xs ! i) \<le> btcrate (xs ! Suc i)"
  unfolding ascending_def
  using sorted_wrt_nth_less [of "\<lambda>a b. btcrate a \<le> btcrate b" xs i "Suc i"] by simp

lemma filter_place:
  "filter (\<lambda>d. btcrate d = r) (place compareFn a xs) =
     (if btcrate a = r then a # filter (\<lambda>d. btcrate d = r) xs else filter (\<lambda>d. btcrate d = r) xs)"
  by (induction xs) (auto simp: compareFn_positive)

lemma filter_array_sort:
  "filter (\<lambda>d. btcrate d = r) (array_sort compareFn xs) = filter (\<lambda>d. btcrate d = r) xs"
  unfolding array_sort_def by (induction xs) (auto simp: filter_place)

lemma array_sort_nonempty: "xs \<noteq> [] \<Longrightarrow> array_sort cmp xs \<noteq> []"
  using mset_array_sort [of cmp xs] by (metis mset_zero_iff)

lemma ascending_head: "ascending (x # xs) \<Longrightarrow> y \<in> set (x # xs) \<Longrightarrow> btcrate x \<le> btcrate y"
  unfolding ascending_def by auto

lemma resolved_nonempty:
  assumes "n < length (inFlight s)" "dispensers d = Some ds" "ds \<noteq> []"
  shows "dispensersState (step s (Resolved n d)) = array_sort compareFn ds"
    and "selectedDispenser (step s (Resolved n d)) = Some (hd (array_sort compareFn ds))"
  using assms array_sort_nonempty [of ds compareFn]
  by (auto simp: fetchResolved_def stampDataEffect_def Let_def split: list.splits)

lemma run_Nil: "run s [] = s"
  by (simp add: run_def)

lemma run_Cons: "run s (e # evs) = run (step s e) evs"
  by (simp add: run_def)


lemma selection_ok_mount: "selection_ok (mount i)"
  by (simp add: selection_ok_def mount_def)

lemma selection_ok_effect: "selection_ok s \<Longrightarrow> selection_ok (stampDataEffect s)"
proof (cases "stampData s")
  case None
  assume "selection_ok s"
  with None show ?thesis by (simp add: stampDataEffect_def)
next
  case (Some d)
  assume ok: "selection_ok s"
  show ?thesis
  proof (cases "dispensers d")
    case None
    with Some ok show ?thesis by (simp add: stampDataEffect_def)
  next
    case inner: (Some ds)
    show ?thesis
    proof (cases "ds = []")
      case True
      with Some inner ok show ?thesis by (simp add: stampDataEffect_def)
    next
      case False
      then obtain x xs where "array_sort compareFn ds = x # xs"
        using array_sort_nonempty [of ds compareFn] by (cases "array_sort compareFn ds") auto
      with Some inner False show ?thesis
        by (simp add: stampDataEffect_def selection_ok_def)
    qed
  qed
qed

lemma selection_ok_fields:
  "selectedDispenser t = selectedDispenser s \<Longrightarrow> dispensersState t = dispensersState s \<Longrightarrow>
   selection_ok s \<Longrightarrow> selection_ok t"
  by (simp add: selection_ok_def)

lemma selection_ok_step: "selection_ok s \<Longrightarrow> selection_ok (step s e)"
proof (cases e)
  case (Props j)
  assume "selection_ok s"
  then show ?thesis using Props
    by (auto simp: setStampId_def elim: selection_ok_fields [rotated 2])
next
  case (Resolved n d)
  assume ok: "selection_ok s"
  have "selection_ok (s\<lparr> stampData := Some d, loading := False,
          shownFor := Some (inFlight s ! n), inFlight := drop_nth n (inFlight s) \<rparr>)"
    using ok by (simp add: selection_ok_def)
  then show ?thesis using Resolved ok
    by (simp add: fetchResolved_def selection_ok_effect)
next
  case (Rejected n)
  assume "selection_ok s"
  then show ?thesis using Rejected
    by (simp add: fetchRejected_def selection_ok_def)
next
  case (Click c t)
  assume "selection_ok s"
  then show ?thesis using Click
    by (cases c; cases t)
       (auto simp: click_def handleClick_def onClick_def handleCopyAddress_def after_handler_def toast_def selection_ok_def
             split: option.splits clipboard_api.splits)
next
  case ModalClose
  assume "selection_ok s"
  then show ?thesis using ModalClose
    by (simp add: closeDispenserModal_def selection_ok_def)
next
  case (TimePasses ms)
  assume "selection_ok s"
  then show ?thesis using TimePasses
    by (simp add: timePasses_def selection_ok_def)
qed

lemma selection_ok_run: "selection_ok s \<Longrightarrow> selection_ok (run s evs)"
  by (induction evs arbitrary: s) (simp_all add: run_Nil run_Cons selection_ok_step)

section \<open>The sample records, evaluated\<close>

lemma pngOffers_sorted:
  "array_sort compareFn pngOffers =
     [offer ''bc1qb'' (15 / 10000), offer ''bc1qd'' (15 / 10000), offer ''bc1qa'' (2 / 1000),
      offer ''bc1qc'' (3 / 1000)]"
  by (simp add: array_sort_def pngOffers_def compareFn_def offer_def)

lemma png_loaded_dispensers:
  "dispensersState (step (mount ''A'') (Resolved 0 pngRecord)) = array_sort compareFn pngOffers"
  by (simp add: fetchResolved_def stampDataEffect_def mount_def pngRecord_def pngOffers_def Let_def)

section \<open>Properties of the handlers\<close>

lemma stampDataEffect_fields:
  "stampId (stampDataEffect s) = stampId s"
  "stampData (stampDataEffect s) = stampData s"
  "isDispenserOpen (stampDataEffect s) = isDispenserOpen s"
  "loading (stampDataEffect s) = loading s"
  "error (stampDataEffect s) = error s"
  "isFlipped (stampDataEffect s) = isFlipped s"
  "inFlight (stampDataEffect s) = inFlight s"
  "shownFor (stampDataEffect s) = shownFor s"
  "toasts (stampDataEffect s) = toasts s"
  "clipboard (stampDataEffect s) = clipboard s"
  "clock (stampDataEffect s) = clock s"
  by (simp_all add: stampDataEffect_def Let_def split: option.splits)

lemma click_fields:
  "stampId (click c t s) = stampId s"
  "stampData (click c t s) = stampData s"
  "isDispenserOpen (click c t s) = isDispenserOpen s"
  "loading (click c t s) = loading s"
  "error (click c t s) = error s"
  "inFlight (click c t s) = inFlight s"
  "shownFor (click c t s) = shownFor s"
  by (cases c; cases t;
      simp add: click_def handleClick_def onClick_def handleCopyAddress_def after_handler_def toast_def
           split: option.splits clipboard_api.splits)+

lemma loading_step: "loading (step s e) \<Longrightarrow> loading s"
  by (cases e)
     (simp_all add: setStampId_def fetchResolved_def fetchRejected_def closeDispenserModal_def
        timePasses_def stampDataEffect_fields click_fields split: if_splits)

lemma loading_run: "\<not> loading s \<Longrightarrow> \<not> loading (run s evs)"
proof (induction evs arbitrary: s)
  case Nil
  then show ?case by (simp add: run_Nil)
next
  case (Cons e evs)
  from Cons.prems have "\<not> loading (step s e)" using loading_step by blast
  then show ?case by (simp add: run_Cons Cons.IH)
qed

lemma error_step:
  "error s = Some ''Failed to fetch stamp information.'' \<Longrightarrow>
   error (step s e) = Some ''Failed to fetch stamp information.''"
  by (cases e)
     (simp_all add: setStampId_def fetchResolved_def fetchRejected_def closeDispenserModal_def
        timePasses_def stampDataEffect_fields click_fields)

lemma error_run:
  "error s = Some ''Failed to fetch stamp information.'' \<Longrightarrow>
   error (run s evs) = Some ''Failed to fetch stamp information.''"
proof (induction evs arbitrary: s)
  case Nil
  then show ?case by (simp add: run_Nil)
next
  case (Cons e evs)
  then show ?case by (simp add: run_Cons error_step)
qed

lemma not_loading_no_skeleton: "\<not> loading s \<Longrightarrow> renderStampContent s \<noteq> Inr Skeleton"
  by (simp add: renderStampContent_def split: option.splits sum.splits)

lemma error_shown:
  "error s = Some ''Failed to fetch stamp information.'' \<Longrightarrow>
   StampCard s = Inr (ErrorText ''Failed to fetch stamp information.'')"
  by (simp add: StampCard_def truthy_def)

lemma answered_in_order_mount: "answered_in_order (mount i)"
  by (simp add: answered_in_order_def mount_def)

lemma drop_nth_0: "drop_nth 0 xs = tl xs"
  by (cases xs) (simp_all add: drop_nth_def)

lemma answered_in_order_step:
  assumes "answered_in_order s" and "in_request_order [e]"
  shows "answered_in_order (step s e)"
proof (cases e)
  case (Props j)
  with assms(1) show ?thesis by (simp add: answered_in_order_def setStampId_def)
next
  case (Resolved n d)
  with assms(2) have n0: "n = 0" by simp
  show ?thesis
  proof (cases "inFlight s")
    case Nil
    with assms(1) Resolved show ?thesis by (simp add: fetchResolved_def)
  next
    case (Cons x xs)
    with assms(1) Resolved n0 show ?thesis
      by (cases xs)
         (simp_all add: fetchResolved_def answered_in_order_def stampDataEffect_fields drop_nth_0)
  qed
next
  case (Rejected n)
  with assms(2) have n0: "n = 0" by simp
  show ?thesis
  proof (cases "inFlight s")
    case Nil
    with assms(1) Rejected show ?thesis by (simp add: fetchRejected_def)
  next
    case (Cons x xs)
    with assms(1) Rejected n0 show ?thesis
      by (cases xs) (simp_all add: fetchRejected_def answered_in_order_def drop_nth_0)
  qed
next
  case (Click c t)
  with assms(1) show ?thesis by (simp add: answered_in_order_def click_fields)
next
  case ModalClose
  with assms(1) show ?thesis by (simp add: answered_in_order_def closeDispenserModal_def)
next
  case (TimePasses ms)
  with assms(1) show ?thesis by (simp add: answered_in_order_def timePasses_def)
qed

lemma in_request_order_Cons:
  "in_request_order (e # evs) \<longleftrightarrow> in_request_order [e] \<and> in_request_order evs"
  by (cases e) simp_all

lemma answered_in_order_run:
  "answered_in_order s \<Longrightarrow> in_request_order evs \<Longrightarrow> answered_in_order (run s evs)"
proof (induction evs arbitrary: s)
  case Nil
  then show ?case by (simp add: run_Nil)
next
  case (Cons e evs)
  from Cons.prems(2) have "in_request_order [e]" and rest: "in_request_order evs"
    using in_request_order_Cons [of e evs] by blast+
  with Cons.prems(1) have "answered_in_order (step s e)" by (simp add: answered_in_order_step)
  with rest show ?case by (simp add: run_Cons Cons.IH)
qed

lemma stampDataEffect_offers:
  "dispensersState (stampDataEffect s) =
     (case stampData s of
        None \<Rightarrow> dispensersState s
      | Some d \<Rightarrow>
          (case dispensers d of
             None \<Rightarrow> dispensersState s
           | Some ds \<Rightarrow> if ds = [] then dispensersState s else array_sort compareFn ds))"
  "selectedDispenser (stampDataEffect s) =
     (case stampData s of
        None \<Rightarrow> selectedDispenser s
      | Some d \<Rightarrow>
          (case dispensers d of
             None \<Rightarrow> selectedDispenser s
           | Some ds \<Rightarrow> if ds = [] then selectedDispenser s
                        else Some (hd (array_sort compareFn ds))))"
  using array_sort_nonempty [of _ compareFn]
  by (auto simp: stampDataEffect_def Let_def split: option.splits list.splits)

lemma setStampId_offers:
  "dispensersState (setStampId j s) = dispensersState s"
  "selectedDispenser (setStampId j s) = selectedDispenser s"
  by (simp_all add: setStampId_def)

lemma menu_item_click:
  "error s = None \<Longrightarrow> i < length (dispensersState s) \<Longrightarrow>
   selectedDispenser (click (DispenserMenuItem i) (HTMLElement ''BUTTON'') s) = Some (dispensersState s ! i) \<and>
   dispensersState (click (DispenserMenuItem i) (HTMLElement ''BUTTON'') s) = dispensersState s"
  by (simp add: click_def truthy_def onClick_def handleClick_def interactiveElements_def)

lemma handleClick_interactive:
  "tagName \<in> set interactiveElements \<Longrightarrow> handleClick b (HTMLElement tagName) s = s"
  by (simp add: handleClick_def)

lemma onClick_isFlipped:
  "isFlipped (onClick Surface s) = isFlipped s"
  "isFlipped (onClick (CpidText w) s) = isFlipped s"
  "isFlipped (onClick (DispenserMenuItem k) s) = isFlipped s"
  "isFlipped (onClick (CopyIcon w) s) = isFlipped s"
  "isFlipped (onClick BackButton s) = False"
  "\<not> loading s \<Longrightarrow> stampData s \<noteq> None \<Longrightarrow> isFlipped (onClick BuyArtButton s) = True"
  by (simp_all add: onClick_def handleCopyAddress_def after_handler_def toast_def split: option.splits clipboard_api.splits)

lemma modal_closed_step: "\<not> isDispenserOpen s \<Longrightarrow> \<not> isDispenserOpen (step s e)"
  by (cases e)
     (simp_all add: setStampId_def fetchResolved_def fetchRejected_def closeDispenserModal_def
        timePasses_def stampDataEffect_fields click_fields)

lemma modal_closed_run: "\<not> isDispenserOpen s \<Longrightarrow> \<not> isDispenserOpen (run s evs)"
proof (induction evs arbitrary: s)
  case Nil
  then show ?case by (simp add: run_Nil)
next
  case (Cons e evs)
  from Cons.prems have "\<not> isDispenserOpen (step s e)" by (rule modal_closed_step)
  then show ?case by (simp add: run_Cons Cons.IH)
qed

lemma frozen_step:
  "error s = Some ''Failed to fetch stamp information.'' \<Longrightarrow>
   isFlipped (step s e) = isFlipped s \<and> isDispenserOpen (step s e) = isDispenserOpen s"
  by (cases e)
     (simp_all add: setStampId_def fetchResolved_def fetchRejected_def closeDispenserModal_def
        timePasses_def stampDataEffect_fields click_def truthy_def)

lemma frozen_run:
  "error s = Some ''Failed to fetch stamp information.'' \<Longrightarrow>
   isFlipped (run s evs) = isFlipped s \<and> isDispenserOpen (run s evs) = isDispenserOpen s"
proof (induction evs arbitrary: s)
  case Nil
  then show ?case by (simp add: run_Nil)
next
  case (Cons e evs)
  have "error (step s e) = Some ''Failed to fetch stamp information.''"
    using Cons.prems by (rule error_step)
  from Cons.IH [OF this] frozen_step [OF Cons.prems, of e] show ?case
    by (simp add: run_Cons)
qed

lemma copy_result:
  "handleCopyAddress ClipboardAbsent address s = Inl TypeError"
  "handleCopyAddress WriteGranted address s = Inr (toast pepeToast (s\<lparr> clipboard := address \<rparr>))"
  "handleCopyAddress WriteRejected address s = Inr (toast pepeToast s)"
  by (simp_all add: handleCopyAddress_def)

lemma toast_fields:
  "toasts (toast opts s) = toasts s @ [\<lparr> options = opts, raisedAt = clock s \<rparr>]"
  "clock (toast opts s) = clock s"
  "error (toast opts s) = error s"
  "clipboard (toast opts s) = clipboard s"
  by (simp_all add: toast_def)

lemma toast_not_drawn: "StampCard (toast opts s) = StampCard s"
  by (simp add: toast_def StampCard_def renderStampContent_def
        cong: option.case_cong sum.case_cong)

lemma clipboard_not_drawn: "StampCard (s\<lparr> clipboard := text \<rparr>) = StampCard s"
  by (simp add: StampCard_def renderStampContent_def cong: option.case_cong sum.case_cong)

lemma timePasses_fields:
  "clock (timePasses ms s) = clock s + ms"
  "toasts (timePasses ms s) =
     filter (\<lambda>t. clock s + ms < raisedAt t + duration (options t)) (toasts s)"
  by (simp_all add: timePasses_def)

lemma copied_cases:
  assumes "handleCopyAddress w address s = Inr s1"
  shows "toasts s1 = toasts s @ [\<lparr> options = pepeToast, raisedAt = clock s \<rparr>]"
    and "clock s1 = clock s"
    and "error s1 = error s"
    and "StampCard s1 = StampCard s"
  using assms
  by (cases w; auto simp: copy_result toast_fields toast_not_drawn clipboard_not_drawn)+

section \<open>The sample records, evaluated further\<close>

lemmas concrete =
  run_def mount_def setStampId_def fetchResolved_def fetchRejected_def stampDataEffect_fields
  click_fields drop_nth_def

lemma sample_offers:
  "dispensers pngRecord = Some pngOffers"
  "dispensers htmlRecord = Some []"
  "pngOffers \<noteq> []"
  by (simp_all add: pngRecord_def htmlRecord_def pngOffers_def)

lemma sample_types:
  "stamp_mimetype (stamp htmlRecord) = Some ''text/html''"
  "stamp_mimetype (stamp brokenHtmlRecord) = Some ''text/html''"
  "stamp_base64 (stamp brokenHtmlRecord) = ''!''"
  "stamp_mimetype (stamp brokenPngRecord) = Some ''image/png''"
  "stamp_base64 (stamp brokenPngRecord) = ''!''"
  "stamp_url (stamp brokenPngRecord) = Some ''https://stampchain.io/stamps/D.png''"
  "stamp_mimetype (stamp jsonRecord) = Some ''application/json''"
  "stamp_url (stamp jsonRecord) = Some ''https://stampchain.io/stamps/E.json''"
  "stamp_mimetype (stamp emptyTypeRecord) = Some []"
  "stamp_url (stamp emptyTypeRecord) = Some []"
  "stamp_mimetype (stamp untypedRecord) = None"
  "stamp_url (stamp untypedRecord) = Some ''https://stampchain.io/stamps/G.png''"
  by (simp_all add: htmlRecord_def brokenHtmlRecord_def brokenPngRecord_def jsonRecord_def
        emptyTypeRecord_def untypedRecord_def)

lemma loaded_state:
  "loading (fetchResolved 0 d (mount i)) = False"
  "stampData (fetchResolved 0 d (mount i)) = Some d"
  "error (fetchResolved 0 d (mount i)) = None"
  "isFlipped (fetchResolved 0 d (mount i)) = False"
  by (simp_all add: mount_def fetchResolved_def stampDataEffect_fields)

lemma html_payload_decodes:
  "atob (stamp_base64 (stamp htmlRecord)) = Inr ''<script>top.location.replace(name)</script>''"
  by (simp add: htmlRecord_def atob_def is_ascii_whitespace_def strip_padding_def sextet_def
        char_of_def bit_Suc_0_iff)

lemma broken_payload_faults: "atob ''!'' = Inl InvalidCharacterError"
  by (simp add: atob_def is_ascii_whitespace_def strip_padding_def)

lemma iframe_sandbox_tokens:
  "sandbox_tokens iframe_sandbox =
     [''allow-scripts'', ''allow-same-origin'', ''allow-forms'', ''allow-popups'',
      ''allow-orientation-lock'', ''allow-pointer-lock'', ''allow-presentation'',
      ''allow-top-navigation'', ''allow-top-navigation-by-user-activation'']"
  by (simp add: sandbox_tokens_def iframe_sandbox_def is_ascii_whitespace_def)

lemma iframe_sandbox_grants:
  "scripts_allowed iframe_sandbox"
  "\<not> opaque_origin iframe_sandbox"
  "\<not> top_navigation_needs_gesture iframe_sandbox"
  "\<not> isolated iframe_sandbox"
  by (simp_all add: scripts_allowed_def opaque_origin_def top_navigation_needs_gesture_def
        isolated_def iframe_sandbox_tokens)

section \<open>The claims\<close>

subsection \<open>C1\<close>

text \<open>
  C1 as stated fails. The fetch for \<open>A\<close> is still in flight when the identifier changes to
  \<open>B\<close>; the answer for \<open>B\<close> arrives first and the late answer for \<open>A\<close> then replaces it, so
  the card whose identifier is \<open>B\<close> ends with the record fetched for \<open>A\<close>.
\<close>

theorem C1_stale_answer_overwrites:
  "stampId (run (mount ''A'') [Props ''B'', Resolved 1 htmlRecord, Resolved 0 pngRecord]) = ''B'' \<and>
   inFlight (run (mount ''A'') [Props ''B'', Resolved 1 htmlRecord, Resolved 0 pngRecord]) = [] \<and>
   shownFor (run (mount ''A'') [Props ''B'', Resolved 1 htmlRecord, Resolved 0 pngRecord]) = Some ''A'' \<and>
   stampData (run (mount ''A'') [Props ''B'', Resolved 1 htmlRecord, Resolved 0 pngRecord]) = Some pngRecord"
  by (simp add: concrete)

text \<open>
  C1, as the component behaves. The answer of a fetch is stored when it arrives, whichever
  identifier it was asked for. When the answers arrive in the order of their requests,
  every fetch has answered and none has failed, the record on display is the one fetched
  for the most recently requested identifier.
\<close>

theorem C1_answers_applied_on_arrival:
  "(n < length (inFlight s) \<longrightarrow>
      stampData (step s (Resolved n d)) = Some d \<and>
      shownFor (step s (Resolved n d)) = Some (inFlight s ! n)) \<and>
   (in_request_order evs \<and> inFlight (run (mount i) evs) = [] \<and> error (run (mount i) evs) = None \<longrightarrow>
      shownFor (run (mount i) evs) = Some (stampId (run (mount i) evs)) \<and>
      stampData (run (mount i) evs) \<noteq> None)"
proof -
  have "answered_in_order (run (mount i) evs)" if "in_request_order evs"
    using that by (simp add: answered_in_order_run answered_in_order_mount)
  then have "in_request_order evs \<and> inFlight (run (mount i) evs) = [] \<and> error (run (mount i) evs) = None \<longrightarrow>
      shownFor (run (mount i) evs) = Some (stampId (run (mount i) evs)) \<and>
      stampData (run (mount i) evs) \<noteq> None"
    unfolding answered_in_order_def by auto
  moreover have "n < length (inFlight s) \<longrightarrow>
      stampData (step s (Resolved n d)) = Some d \<and>
      shownFor (step s (Resolved n d)) = Some (inFlight s ! n)"
    by (simp add: fetchResolved_def stampDataEffect_fields)
  ultimately show ?thesis by blast
qed

text \<open>
  C1 at a run: with \<open>A\<close> and \<open>B\<close> both in flight the answer for \<open>B\<close> is stored on arrival, and
  with both answers in request order the card for \<open>B\<close> ends with the record fetched for \<open>B\<close>.
\<close>

theorem C1_answers_applied_on_arrival_witness:
  "1 < length (inFlight (step (mount ''A'') (Props ''B''))) \<and>
   inFlight (step (mount ''A'') (Props ''B'')) ! 1 = ''B'' \<and>
   shownFor (step (step (mount ''A'') (Props ''B'')) (Resolved 1 htmlRecord)) = Some ''B'' \<and>
   in_request_order [Props ''B'', Resolved 0 pngRecord, Resolved 0 htmlRecord] \<and>
   inFlight (run (mount ''A'') [Props ''B'', Resolved 0 pngRecord, Resolved 0 htmlRecord]) = [] \<and>
   error (run (mount ''A'') [Props ''B'', Resolved 0 pngRecord, Resolved 0 htmlRecord]) = None \<and>
   stampId (run (mount ''A'') [Props ''B'', Resolved 0 pngRecord, Resolved 0 htmlRecord]) = ''B'' \<and>
   shownFor (run (mount ''A'') [Props ''B'', Resolved 0 pngRecord, Resolved 0 htmlRecord]) = Some ''B''"
proof -
  have h1: "1 < length (inFlight (step (mount ''A'') (Props ''B'')))"
    by (simp add: concrete)
  have at1: "inFlight (step (mount ''A'') (Props ''B'')) ! 1 = ''B''"
    by (simp add: concrete)
  have h2: "in_request_order [Props ''B'', Resolved 0 pngRecord, Resolved 0 htmlRecord]"
    by simp
  have h3: "inFlight (run (mount ''A'') [Props ''B'', Resolved 0 pngRecord, Resolved 0 htmlRecord]) = []"
    by (simp add: concrete)
  have h4: "error (run (mount ''A'') [Props ''B'', Resolved 0 pngRecord, Resolved 0 htmlRecord]) = None"
    by (simp add: concrete)
  have id: "stampId (run (mount ''A'') [Props ''B'', Resolved 0 pngRecord, Resolved 0 htmlRecord]) = ''B''"
    by (simp add: concrete)
  note applied =
    C1_answers_applied_on_arrival [of 1 "step (mount ''A'') (Props ''B'')" htmlRecord
      "[Props ''B'', Resolved 0 pngRecord, Resolved 0 htmlRecord]" "''A''"]
  have late: "shownFor (step (step (mount ''A'') (Props ''B'')) (Resolved 1 htmlRecord)) = Some ''B''"
    using applied h1 at1 by simp
  have last: "shownFor (run (mount ''A'') [Props ''B'', Resolved 0 pngRecord, Resolved 0 htmlRecord]) = Some ''B''"
    using applied h2 h3 h4 id by simp
  from h1 at1 late h2 h3 h4 id last show ?thesis by blast
qed

subsection \<open>C2\<close>

text \<open>
  C2 as stated fails. A \<open>text/html\<close> record whose payload is a script is drawn in a frame
  whose \<open>sandbox\<close> attribute carries \<open>allow-same-origin\<close> and \<open>allow-top-navigation\<close>: the
  frame keeps the origin of the embedding page and may navigate the top-level page without a
  user gesture.
\<close>

theorem C2_markup_frame_not_isolated:
  "stamp_mimetype (stamp htmlRecord) = Some ''text/html'' \<and>
   renderStampContent (step (mount ''B'') (Resolved 0 htmlRecord))
     = Inr (Iframe (styleContent @ ''<script>top.location.replace(name)</script>'') iframe_sandbox) \<and>
   \<not> opaque_origin iframe_sandbox \<and>
   \<not> top_navigation_needs_gesture iframe_sandbox \<and>
   \<not> isolated iframe_sandbox"
  by (simp add: renderStampContent_def loaded_state sample_types html_payload_decodes
        iframe_sandbox_grants)

text \<open>
  C2, as the component behaves. For every loaded record whose declared content type is
  \<open>text/html\<close> and whose payload is valid base64, the decoded payload, behind a fixed style
  block, is drawn in a frame whose \<open>sandbox\<close> attribute grants exactly the nine tokens
  below: the frame runs scripts, keeps the origin of the embedding page, and may navigate
  the top-level page without a user gesture.
\<close>

theorem C2_markup_in_frame_with_granted_tokens:
  "(\<not> loading s \<and> stampData s = Some d \<and> stamp_mimetype (stamp d) = Some ''text/html'' \<and>
    atob (stamp_base64 (stamp d)) = Inr html \<longrightarrow>
      renderStampContent s = Inr (Iframe (styleContent @ html) iframe_sandbox)) \<and>
   sandbox_tokens iframe_sandbox =
     [''allow-scripts'', ''allow-same-origin'', ''allow-forms'', ''allow-popups'',
      ''allow-orientation-lock'', ''allow-pointer-lock'', ''allow-presentation'',
      ''allow-top-navigation'', ''allow-top-navigation-by-user-activation''] \<and>
   scripts_allowed iframe_sandbox \<and>
   \<not> opaque_origin iframe_sandbox \<and>
   \<not> top_navigation_needs_gesture iframe_sandbox"
  by (simp add: renderStampContent_def iframe_sandbox_tokens iframe_sandbox_grants)

text \<open>
  C2 at the sample markup record.
\<close>

theorem C2_markup_in_frame_with_granted_tokens_witness:
  "\<not> loading (step (mount ''B'') (Resolved 0 htmlRecord)) \<and>
   stampData (step (mount ''B'') (Resolved 0 htmlRecord)) = Some htmlRecord \<and>
   stamp_mimetype (stamp htmlRecord) = Some ''text/html'' \<and>
   atob (stamp_base64 (stamp htmlRecord)) = Inr ''<script>top.location.replace(name)</script>'' \<and>
   renderStampContent (step (mount ''B'') (Resolved 0 htmlRecord))
     = Inr (Iframe (styleContent @ ''<script>top.location.replace(name)</script>'') iframe_sandbox) \<and>
   scripts_allowed iframe_sandbox"
proof -
  have h1: "\<not> loading (step (mount ''B'') (Resolved 0 htmlRecord))" by (simp add: loaded_state)
  have h2: "stampData (step (mount ''B'') (Resolved 0 htmlRecord)) = Some htmlRecord"
    by (simp add: loaded_state)
  note h3 = sample_types(1) and h4 = html_payload_decodes
  note framed = C2_markup_in_frame_with_granted_tokens
    [of "step (mount ''B'') (Resolved 0 htmlRecord)" htmlRecord
        "''<script>top.location.replace(name)</script>''"]
  have r: "renderStampContent (step (mount ''B'') (Resolved 0 htmlRecord))
     = Inr (Iframe (styleContent @ ''<script>top.location.replace(name)</script>'') iframe_sandbox)"
    using framed h1 h2 h3 h4 by blast
  have g: "scripts_allowed iframe_sandbox" using framed by blast
  from h1 h2 h3 h4 r g show ?thesis by blast
qed

subsection \<open>C3\<close>

text \<open>
  C3 as stated fails. After the record for \<open>A\<close> with four offers, the identifier changes to
  \<open>B\<close> and the record for \<open>B\<close> arrives with an empty offer list: the offers and the selection
  of \<open>A\<close> stay in the state, so the selection is not empty although the current record has
  no offer.
\<close>

theorem C3_previous_offers_remain:
  "stampId (run (mount ''A'') [Resolved 0 pngRecord, Props ''B'', Resolved 0 htmlRecord]) = ''B'' \<and>
   stampData (run (mount ''A'') [Resolved 0 pngRecord, Props ''B'', Resolved 0 htmlRecord]) = Some htmlRecord \<and>
   dispensers htmlRecord = Some [] \<and>
   selectedDispenser (run (mount ''A'') [Resolved 0 pngRecord, Props ''B'', Resolved 0 htmlRecord])
     = Some (offer ''bc1qb'' (15 / 10000)) \<and>
   dispensersState (run (mount ''A'') [Resolved 0 pngRecord, Props ''B'', Resolved 0 htmlRecord])
     = [offer ''bc1qb'' (15 / 10000), offer ''bc1qd'' (15 / 10000), offer ''bc1qa'' (2 / 1000),
        offer ''bc1qc'' (3 / 1000)]"
  by (simp add: concrete stampDataEffect_offers setStampId_offers sample_offers pngOffers_sorted)

text \<open>
  C3, as the component behaves. In every reachable state the selection is empty if and
  only if the displayed offer list is empty, and a selection is a member of the displayed
  offer list. The arrival of a record with a non-empty offer list replaces the displayed
  list by that record's sorted offers and selects an offer of that record with the lowest
  rate. The arrival of a record with an empty or absent offer list leaves the displayed
  list and the selection as they were.
\<close>

theorem C3_selection_among_displayed_offers:
  "(selectedDispenser (run (mount i) evs) = None \<longleftrightarrow> dispensersState (run (mount i) evs) = []) \<and>
   (\<forall>sel. selectedDispenser (run (mount i) evs) = Some sel \<longrightarrow>
      sel \<in> set (dispensersState (run (mount i) evs))) \<and>
   (n < length (inFlight s) \<and> dispensers d = Some ds \<and> ds \<noteq> [] \<longrightarrow>
      dispensersState (step s (Resolved n d)) = array_sort compareFn ds \<and>
      set (dispensersState (step s (Resolved n d))) = set ds \<and>
      (\<exists>first. selectedDispenser (step s (Resolved n d)) = Some first \<and> first \<in> set ds \<and>
         (\<forall>x \<in> set ds. btcrate first \<le> btcrate x))) \<and>
   (dispensers d = None \<or> dispensers d = Some [] \<longrightarrow>
      dispensersState (step s (Resolved n d)) = dispensersState s \<and>
      selectedDispenser (step s (Resolved n d)) = selectedDispenser s)"
proof -
  have "selection_ok (run (mount i) evs)"
    by (simp add: selection_ok_run selection_ok_mount)
  then have reach:
    "(selectedDispenser (run (mount i) evs) = None \<longleftrightarrow> dispensersState (run (mount i) evs) = [])"
    "\<forall>sel. selectedDispenser (run (mount i) evs) = Some sel \<longrightarrow>
       sel \<in> set (dispensersState (run (mount i) evs))"
    unfolding selection_ok_def by blast+
  have fresh: "dispensersState (step s (Resolved n d)) = array_sort compareFn ds \<and>
      set (dispensersState (step s (Resolved n d))) = set ds \<and>
      (\<exists>first. selectedDispenser (step s (Resolved n d)) = Some first \<and> first \<in> set ds \<and>
         (\<forall>x \<in> set ds. btcrate first \<le> btcrate x))"
    if h: "n < length (inFlight s)" "dispensers d = Some ds" "ds \<noteq> []"
  proof -
    obtain y ys where sorted: "array_sort compareFn ds = y # ys"
      using array_sort_nonempty [OF h(3), of compareFn] by (cases "array_sort compareFn ds") auto
    have asc: "ascending (y # ys)"
      using ascending_array_sort [of ds] by (simp add: sorted)
    have same: "set (y # ys) = set ds"
      using set_array_sort [of compareFn ds] by (simp add: sorted)
    have "\<forall>x \<in> set ds. btcrate y \<le> btcrate x"
      using ascending_head [OF asc] same by blast
    moreover have "y \<in> set ds" using same by auto
    moreover have "selectedDispenser (step s (Resolved n d)) = Some y"
      using resolved_nonempty(2) [OF h] by (simp add: sorted)
    moreover have "dispensersState (step s (Resolved n d)) = array_sort compareFn ds"
      using h by (rule resolved_nonempty(1))
    ultimately show ?thesis using same sorted by auto
  qed
  have kept: "dispensersState (step s (Resolved n d)) = dispensersState s \<and>
      selectedDispenser (step s (Resolved n d)) = selectedDispenser s"
    if "dispensers d = None \<or> dispensers d = Some []"
    using that by (auto simp: fetchResolved_def stampDataEffect_offers)
  from reach fresh kept show ?thesis by blast
qed

text \<open>
  C3 at a run: the sample record loads, the third menu item is chosen, and a record
  without offers arrives.
\<close>

theorem C3_selection_among_displayed_offers_witness:
  "selectedDispenser (run (mount ''A'') [Resolved 0 pngRecord, Click (DispenserMenuItem 2) (HTMLElement ''BUTTON'')])
     = Some (offer ''bc1qa'' (2 / 1000)) \<and>
   offer ''bc1qa'' (2 / 1000)
     \<in> set (dispensersState (run (mount ''A'') [Resolved 0 pngRecord, Click (DispenserMenuItem 2) (HTMLElement ''BUTTON'')])) \<and>
   0 < length (inFlight (mount ''A'')) \<and> dispensers pngRecord = Some pngOffers \<and> pngOffers \<noteq> [] \<and>
   selectedDispenser (step (mount ''A'') (Resolved 0 pngRecord)) = Some (offer ''bc1qb'' (15 / 10000)) \<and>
   set (dispensersState (step (mount ''A'') (Resolved 0 pngRecord))) = set pngOffers \<and>
   dispensers htmlRecord = Some [] \<and>
   dispensersState (step (step (mount ''A'') (Resolved 0 pngRecord)) (Resolved 0 htmlRecord))
     = dispensersState (step (mount ''A'') (Resolved 0 pngRecord))"
proof -
  have h1: "0 < length (inFlight (mount ''A''))" by (simp add: mount_def)
  note h2 = sample_offers(1) and h3 = sample_offers(3) and h4 = sample_offers(2)
  have loaded: "dispensersState (step (mount ''A'') (Resolved 0 pngRecord))
      = [offer ''bc1qb'' (15 / 10000), offer ''bc1qd'' (15 / 10000), offer ''bc1qa'' (2 / 1000),
         offer ''bc1qc'' (3 / 1000)]"
    by (simp add: concrete stampDataEffect_offers sample_offers pngOffers_sorted)
  have noerr: "error (step (mount ''A'') (Resolved 0 pngRecord)) = None"
    by (simp add: concrete)
  have sel: "selectedDispenser (run (mount ''A'') [Resolved 0 pngRecord, Click (DispenserMenuItem 2) (HTMLElement ''BUTTON'')])
     = Some (offer ''bc1qa'' (2 / 1000))"
    using menu_item_click [OF noerr, of 2] by (simp add: run_def loaded [unfolded step.simps])
  have first: "selectedDispenser (step (mount ''A'') (Resolved 0 pngRecord)) = Some (offer ''bc1qb'' (15 / 10000))"
    by (simp add: concrete stampDataEffect_offers sample_offers pngOffers_sorted)
  note inv = C3_selection_among_displayed_offers
    [of "''A''" "[Resolved 0 pngRecord, Click (DispenserMenuItem 2) (HTMLElement ''BUTTON'')]"
        0 "mount ''A''" pngRecord pngOffers]
  note kept = C3_selection_among_displayed_offers
    [of "''A''" "[]" 0 "step (mount ''A'') (Resolved 0 pngRecord)" htmlRecord "[]"]
  have mem: "offer ''bc1qa'' (2 / 1000)
     \<in> set (dispensersState (run (mount ''A'') [Resolved 0 pngRecord, Click (DispenserMenuItem 2) (HTMLElement ''BUTTON'')]))"
    using inv sel by blast
  have same: "set (dispensersState (step (mount ''A'') (Resolved 0 pngRecord))) = set pngOffers"
    using inv h1 h2 h3 by blast
  have stay: "dispensersState (step (step (mount ''A'') (Resolved 0 pngRecord)) (Resolved 0 htmlRecord))
     = dispensersState (step (mount ''A'') (Resolved 0 pngRecord))"
    using kept h4 by blast
  from sel mem h1 h2 h3 first same h4 stay show ?thesis by blast
qed

subsection \<open>C4\<close>

text \<open>
  C4. For every arriving record with a non-empty offer list, the displayed offer list is a
  stable ascending sort of the fetched offers by unit rate: each displayed offer's rate is
  at most the next one's, the displayed offers are the fetched ones, and offers of equal
  rate keep their fetch order.
\<close>

theorem C4_offers_sorted_stable:
  assumes "n < length (inFlight s)" and "dispensers d = Some ds" and "ds \<noteq> []"
  shows "(\<forall>i. Suc i < length (dispensersState (step s (Resolved n d))) \<longrightarrow>
            btcrate (dispensersState (step s (Resolved n d)) ! i)
              \<le> btcrate (dispensersState (step s (Resolved n d)) ! Suc i)) \<and>
         mset (dispensersState (step s (Resolved n d))) = mset ds \<and>
         (\<forall>r. filter (\<lambda>x. btcrate x = r) (dispensersState (step s (Resolved n d)))
                = filter (\<lambda>x. btcrate x = r) ds)"
proof -
  have shown: "dispensersState (step s (Resolved n d)) = array_sort compareFn ds"
    using assms by (rule resolved_nonempty)
  have "\<forall>i. Suc i < length (array_sort compareFn ds) \<longrightarrow>
          btcrate (array_sort compareFn ds ! i) \<le> btcrate (array_sort compareFn ds ! Suc i)"
    using ascending_adjacent [OF ascending_array_sort] by blast
  moreover have "mset (array_sort compareFn ds) = mset ds"
    by (rule mset_array_sort)
  moreover have "\<forall>r. filter (\<lambda>x. btcrate x = r) (array_sort compareFn ds)
                   = filter (\<lambda>x. btcrate x = r) ds"
    by (simp add: filter_array_sort)
  ultimately show ?thesis unfolding shown by blast
qed

text \<open>
  C4 at the sample record: rates 0.002, 0.0015, 0.003, 0.0015 are displayed as 0.0015,
  0.0015, 0.002, 0.003, the two offers at 0.0015 in their fetch order.
\<close>

theorem C4_offers_sorted_stable_witness:
  "0 < length (inFlight (mount ''A'')) \<and> dispensers pngRecord = Some pngOffers \<and> pngOffers \<noteq> [] \<and>
   dispensersState (step (mount ''A'') (Resolved 0 pngRecord)) =
     [offer ''bc1qb'' (15 / 10000), offer ''bc1qd'' (15 / 10000), offer ''bc1qa'' (2 / 1000),
      offer ''bc1qc'' (3 / 1000)] \<and>
   btcrate (dispensersState (step (mount ''A'') (Resolved 0 pngRecord)) ! 1)
     \<le> btcrate (dispensersState (step (mount ''A'') (Resolved 0 pngRecord)) ! Suc 1) \<and>
   mset (dispensersState (step (mount ''A'') (Resolved 0 pngRecord))) = mset pngOffers \<and>
   filter (\<lambda>x. btcrate x = 15 / 10000) (dispensersState (step (mount ''A'') (Resolved 0 pngRecord)))
     = [offer ''bc1qb'' (15 / 10000), offer ''bc1qd'' (15 / 10000)]"
proof -
  have h1: "0 < length (inFlight (mount ''A''))" by (simp add: mount_def)
  have h2: "dispensers pngRecord = Some pngOffers" by (simp add: pngRecord_def)
  have h3: "pngOffers \<noteq> []" by (simp add: pngOffers_def)
  note sorted_stable = C4_offers_sorted_stable [OF h1 h2 h3]
  have shown: "dispensersState (step (mount ''A'') (Resolved 0 pngRecord)) =
     [offer ''bc1qb'' (15 / 10000), offer ''bc1qd'' (15 / 10000), offer ''bc1qa'' (2 / 1000),
      offer ''bc1qc'' (3 / 1000)]"
    by (simp only: png_loaded_dispensers pngOffers_sorted)
  have len: "Suc 1 < length (dispensersState (step (mount ''A'') (Resolved 0 pngRecord)))"
    unfolding shown by simp
  have adj: "btcrate (dispensersState (step (mount ''A'') (Resolved 0 pngRecord)) ! 1)
     \<le> btcrate (dispensersState (step (mount ''A'') (Resolved 0 pngRecord)) ! Suc 1)"
    using sorted_stable len by blast
  have perm: "mset (dispensersState (step (mount ''A'') (Resolved 0 pngRecord))) = mset pngOffers"
    using sorted_stable by blast
  have "filter (\<lambda>x. btcrate x = 15 / 10000) pngOffers
     = [offer ''bc1qb'' (15 / 10000), offer ''bc1qd'' (15 / 10000)]"
    by (simp add: pngOffers_def offer_def)
  moreover have "filter (\<lambda>x. btcrate x = 15 / 10000)
        (dispensersState (step (mount ''A'') (Resolved 0 pngRecord)))
     = filter (\<lambda>x. btcrate x = 15 / 10000) pngOffers"
    using sorted_stable by blast
  ultimately have ties: "filter (\<lambda>x. btcrate x = 15 / 10000)
        (dispensersState (step (mount ''A'') (Resolved 0 pngRecord)))
     = [offer ''bc1qb'' (15 / 10000), offer ''bc1qd'' (15 / 10000)]"
    by simp
  from h1 h2 h3 shown adj perm ties show ?thesis by blast
qed

subsection \<open>C5\<close>

text \<open>
  C5 as stated fails in its last part. The fetch for \<open>A\<close> fails, the identifier changes to
  \<open>B\<close> and the fetch for \<open>B\<close> succeeds: the component still draws the error text alone.
\<close>

theorem C5_error_outlives_new_identifier:
  "stampId (run (mount ''A'') [Rejected 0, Props ''B'', Resolved 0 htmlRecord]) = ''B'' \<and>
   stampData (run (mount ''A'') [Rejected 0, Props ''B'', Resolved 0 htmlRecord]) = Some htmlRecord \<and>
   inFlight (run (mount ''A'') [Rejected 0, Props ''B'', Resolved 0 htmlRecord]) = [] \<and>
   StampCard (run (mount ''A'') [Rejected 0, Props ''B'', Resolved 0 htmlRecord])
     = Inr (ErrorText ''Failed to fetch stamp information.'')"
  by (simp add: concrete StampCard_def truthy_def)

text \<open>
  C5, as the component behaves. Every fetch that fails stores the error message and clears
  the loading flag; it starts no other fetch; and from then on, whatever happens (a new
  identifier and a later successful fetch included), the component draws the error text
  alone.
\<close>

theorem C5_failed_fetch_shows_error_for_good:
  "n < length (inFlight s) \<longrightarrow>
     \<not> loading (step s (Rejected n)) \<and>
     error (step s (Rejected n)) = Some ''Failed to fetch stamp information.'' \<and>
     inFlight (step s (Rejected n)) = drop_nth n (inFlight s) \<and>
     length (inFlight (step s (Rejected n))) < length (inFlight s) \<and>
     StampCard (run (step s (Rejected n)) evs) = Inr (ErrorText ''Failed to fetch stamp information.'')"
proof
  assume n: "n < length (inFlight s)"
  then have err: "error (step s (Rejected n)) = Some ''Failed to fetch stamp information.''"
    by (simp add: fetchRejected_def)
  have "StampCard (run (step s (Rejected n)) evs) = Inr (ErrorText ''Failed to fetch stamp information.'')"
    using error_run [OF err] by (rule error_shown)
  moreover have "length (drop_nth n (inFlight s)) < length (inFlight s)"
    using n by (simp add: drop_nth_def)
  ultimately show "\<not> loading (step s (Rejected n)) \<and>
     error (step s (Rejected n)) = Some ''Failed to fetch stamp information.'' \<and>
     inFlight (step s (Rejected n)) = drop_nth n (inFlight s) \<and>
     length (inFlight (step s (Rejected n))) < length (inFlight s) \<and>
     StampCard (run (step s (Rejected n)) evs) = Inr (ErrorText ''Failed to fetch stamp information.'')"
    using n err by (simp add: fetchRejected_def)
qed

text \<open>
  C5 at a run: the first fetch fails, then a new identifier, its record and a click arrive.
\<close>

theorem C5_failed_fetch_shows_error_for_good_witness:
  "0 < length (inFlight (mount ''A'')) \<and>
   loading (mount ''A'') \<and>
   \<not> loading (step (mount ''A'') (Rejected 0)) \<and>
   inFlight (step (mount ''A'') (Rejected 0)) = [] \<and>
   StampCard (run (step (mount ''A'') (Rejected 0)) [Props ''B'', Resolved 0 htmlRecord, Click BackButton (HTMLElement ''BUTTON'')])
     = Inr (ErrorText ''Failed to fetch stamp information.'')"
proof -
  have h: "0 < length (inFlight (mount ''A''))" by (simp add: mount_def)
  have l: "loading (mount ''A'')" by (simp add: mount_def)
  note failed = C5_failed_fetch_shows_error_for_good
    [of 0 "mount ''A''" "[Props ''B'', Resolved 0 htmlRecord, Click BackButton (HTMLElement ''BUTTON'')]"]
  have a: "\<not> loading (step (mount ''A'') (Rejected 0))" using failed h by blast
  have b: "inFlight (step (mount ''A'') (Rejected 0)) = []"
    using failed h by (simp add: mount_def drop_nth_def)
  have c: "StampCard (run (step (mount ''A'') (Rejected 0)) [Props ''B'', Resolved 0 htmlRecord, Click BackButton (HTMLElement ''BUTTON'')])
     = Inr (ErrorText ''Failed to fetch stamp information.'')"
    using failed h by blast
  from h l a b c show ?thesis by blast
qed

subsection \<open>C6\<close>

text \<open>
  C6 as stated fails. A loaded \<open>text/html\<close> record whose payload is not base64 makes the
  render raise \<open>InvalidCharacterError\<close> instead of taking the fallback path; a loaded
  \<open>image/png\<close> record whose payload is not base64 is drawn from its inline payload although it
  has a remote URL; and a loaded record without content type makes the render raise
  \<open>TypeError\<close> although it has a remote URL.
\<close>

theorem C6_undecodable_or_untyped_not_fallback:
  "\<not> loading (step (mount ''C'') (Resolved 0 brokenHtmlRecord)) \<and>
   stamp_mimetype (stamp brokenHtmlRecord) = Some ''text/html'' \<and>
   atob (stamp_base64 (stamp brokenHtmlRecord)) = Inl InvalidCharacterError \<and>
   renderStampContent (step (mount ''C'') (Resolved 0 brokenHtmlRecord)) = Inl InvalidCharacterError \<and>
   StampCard (step (mount ''C'') (Resolved 0 brokenHtmlRecord)) = Inl InvalidCharacterError \<and>
   atob (stamp_base64 (stamp brokenPngRecord)) = Inl InvalidCharacterError \<and>
   stamp_url (stamp brokenPngRecord) = Some ''https://stampchain.io/stamps/D.png'' \<and>
   renderStampContent (step (mount ''D'') (Resolved 0 brokenPngRecord))
     = Inr (ImageElement ''data:image/png;base64,!'') \<and>
   \<not> loading (step (mount ''G'') (Resolved 0 untypedRecord)) \<and>
   stamp_mimetype (stamp untypedRecord) = None \<and>
   stamp_url (stamp untypedRecord) = Some ''https://stampchain.io/stamps/G.png'' \<and>
   renderStampContent (step (mount ''G'') (Resolved 0 untypedRecord)) = Inl TypeError \<and>
   StampCard (step (mount ''G'') (Resolved 0 untypedRecord)) = Inl TypeError"
  by (simp add: renderStampContent_def StampCard_def truthy_def loaded_state sample_types
        broken_payload_faults startsWith_def convertBase64ToImage_def)

text \<open>
  C6, as the component behaves. For every loaded record that declares a content type the
  rendering decision is a function of that type: \<open>text/html\<close> gives the frame of the decoded
  payload, or the decoder's fault when the payload is not base64; a type that starts with
  \<open>image/\<close> gives an image of the inline payload as it is; every other declared type,
  unrecognised or empty, gives the fallback image (the remote URL if present and not empty,
  else the built-in placeholder). A record without content type makes the render raise
  \<open>TypeError\<close>.
\<close>

theorem C6_decision_by_declared_type:
  "\<not> loading s \<and> stampData s = Some d \<longrightarrow>
     (stamp_mimetype (stamp d) = None \<longrightarrow> renderStampContent s = Inl TypeError) \<and>
     (stamp_mimetype (stamp d) = Some ''text/html'' \<longrightarrow>
        renderStampContent s =
          (case atob (stamp_base64 (stamp d)) of
             Inl f \<Rightarrow> Inl f
           | Inr html \<Rightarrow> Inr (Iframe (styleContent @ html) iframe_sandbox))) \<and>
     (\<forall>m. stamp_mimetype (stamp d) = Some m \<and> m \<noteq> ''text/html'' \<and> startsWith m ''image/'' \<longrightarrow>
        renderStampContent s = Inr (ImageElement (convertBase64ToImage (stamp_base64 (stamp d)) m))) \<and>
     (\<forall>m. stamp_mimetype (stamp d) = Some m \<and> m \<noteq> ''text/html'' \<and> \<not> startsWith m ''image/'' \<longrightarrow>
        renderStampContent s =
          Inr (ImageElement (case stamp_url (stamp d) of
                               None \<Rightarrow> ''AZlogo.webp''
                             | Some u \<Rightarrow> if u = [] then ''AZlogo.webp'' else u)))"
  by (auto simp: renderStampContent_def fallback_src_def truthy_def split: sum.splits option.splits)

text \<open>
  C6 at four sample records: an unrecognised type with a remote URL, an empty type with an
  empty URL, no type at all, and \<open>text/html\<close> with a payload that is not base64.
\<close>

theorem C6_decision_by_declared_type_witness:
  "\<not> loading (step (mount ''E'') (Resolved 0 jsonRecord)) \<and>
   stampData (step (mount ''E'') (Resolved 0 jsonRecord)) = Some jsonRecord \<and>
   stamp_mimetype (stamp jsonRecord) = Some ''application/json'' \<and>
   renderStampContent (step (mount ''E'') (Resolved 0 jsonRecord))
     = Inr (ImageElement ''https://stampchain.io/stamps/E.json'') \<and>
   \<not> loading (step (mount ''F'') (Resolved 0 emptyTypeRecord)) \<and>
   stampData (step (mount ''F'') (Resolved 0 emptyTypeRecord)) = Some emptyTypeRecord \<and>
   stamp_mimetype (stamp emptyTypeRecord) = Some [] \<and>
   renderStampContent (step (mount ''F'') (Resolved 0 emptyTypeRecord))
     = Inr (ImageElement ''AZlogo.webp'') \<and>
   \<not> loading (step (mount ''G'') (Resolved 0 untypedRecord)) \<and>
   stampData (step (mount ''G'') (Resolved 0 untypedRecord)) = Some untypedRecord \<and>
   stamp_mimetype (stamp untypedRecord) = None \<and>
   renderStampContent (step (mount ''G'') (Resolved 0 untypedRecord)) = Inl TypeError \<and>
   \<not> loading (step (mount ''C'') (Resolved 0 brokenHtmlRecord)) \<and>
   stampData (step (mount ''C'') (Resolved 0 brokenHtmlRecord)) = Some brokenHtmlRecord \<and>
   stamp_mimetype (stamp brokenHtmlRecord) = Some ''text/html'' \<and>
   renderStampContent (step (mount ''C'') (Resolved 0 brokenHtmlRecord)) = Inl InvalidCharacterError"
proof -
  have a1: "\<not> loading (step (mount ''E'') (Resolved 0 jsonRecord))" by (simp add: loaded_state)
  have a2: "stampData (step (mount ''E'') (Resolved 0 jsonRecord)) = Some jsonRecord"
    by (simp add: loaded_state)
  note a3 = sample_types(7)
  have a4: "''application/json'' \<noteq> ''text/html'' \<and> \<not> startsWith ''application/json'' ''image/''"
    by (simp add: startsWith_def)
  have a5: "renderStampContent (step (mount ''E'') (Resolved 0 jsonRecord))
     = Inr (ImageElement ''https://stampchain.io/stamps/E.json'')"
    using C6_decision_by_declared_type [of "step (mount ''E'') (Resolved 0 jsonRecord)" jsonRecord]
      a1 a2 a3 a4 by (simp add: sample_types)
  have b1: "\<not> loading (step (mount ''F'') (Resolved 0 emptyTypeRecord))"
    by (simp add: loaded_state)
  have b2: "stampData (step (mount ''F'') (Resolved 0 emptyTypeRecord)) = Some emptyTypeRecord"
    by (simp add: loaded_state)
  note b3 = sample_types(9)
  have b4: "[] \<noteq> ''text/html'' \<and> \<not> startsWith [] ''image/''"
    by (simp add: startsWith_def)
  have b5: "renderStampContent (step (mount ''F'') (Resolved 0 emptyTypeRecord))
     = Inr (ImageElement ''AZlogo.webp'')"
    using C6_decision_by_declared_type
      [of "step (mount ''F'') (Resolved 0 emptyTypeRecord)" emptyTypeRecord]
      b1 b2 b3 b4 by (simp add: sample_types)
  have c1: "\<not> loading (step (mount ''G'') (Resolved 0 untypedRecord))"
    by (simp add: loaded_state)
  have c2: "stampData (step (mount ''G'') (Resolved 0 untypedRecord)) = Some untypedRecord"
    by (simp add: loaded_state)
  note c3 = sample_types(11)
  have c4: "renderStampContent (step (mount ''G'') (Resolved 0 untypedRecord)) = Inl TypeError"
    using C6_decision_by_declared_type [of "step (mount ''G'') (Resolved 0 untypedRecord)" untypedRecord]
      c1 c2 c3 by blast
  have d1: "\<not> loading (step (mount ''C'') (Resolved 0 brokenHtmlRecord))"
    by (simp add: loaded_state)
  have d2: "stampData (step (mount ''C'') (Resolved 0 brokenHtmlRecord)) = Some brokenHtmlRecord"
    by (simp add: loaded_state)
  note d3 = sample_types(2)
  have d4: "renderStampContent (step (mount ''C'') (Resolved 0 brokenHtmlRecord))
     = Inl InvalidCharacterError"
    using C6_decision_by_declared_type
      [of "step (mount ''C'') (Resolved 0 brokenHtmlRecord)" brokenHtmlRecord]
      d1 d2 d3 by (simp add: sample_types broken_payload_faults)
  from a1 a2 a3 a5 b1 b2 b3 b5 c1 c2 c3 c4 d1 d2 d3 d4 show ?thesis by blast
qed

subsection \<open>C7\<close>

text \<open>
  C7 as stated fails in two places. The card is flipped to its back and the identifier then
  changes: the card stays on its back. And the state after a failed fetch is terminal: the
  tap that turns a fresh card to its back leaves a card whose fetch has failed on its
  front, with the error text drawn alone.
\<close>

theorem C7_flip_outlives_new_identifier:
  "isFlipped (mount ''A'') = False \<and>
   isFlipped (run (mount ''A'') [Click Surface (HTMLElement ''DIV'')]) = True \<and>
   stampId (run (mount ''A'') [Click Surface (HTMLElement ''DIV''), Props ''B'']) = ''B'' \<and>
   isFlipped (run (mount ''A'') [Click Surface (HTMLElement ''DIV''), Props ''B'']) = True \<and>
   isFlipped (run (mount ''A'') [Rejected 0, Click Surface (HTMLElement ''DIV'')]) = False \<and>
   StampCard (run (mount ''A'') [Rejected 0, Click Surface (HTMLElement ''DIV'')])
     = Inr (ErrorText ''Failed to fetch stamp information.'')"
  by (simp add: run_def mount_def click_def truthy_def onClick_def handleClick_def
        interactiveElements_def setStampId_def fetchRejected_def StampCard_def)

text \<open>
  C7, as the component behaves. The view state starts as Front with the modal closed, and
  the modal flag is false in every reachable state. While the card is drawn a tap on its
  surface toggles the orientation. Once a fetch has failed the view state is terminal:
  after every later sequence of events the orientation and the modal flag are what they
  were and the error text is drawn alone. An identifier change leaves the orientation and
  the modal flag as they are.
\<close>

theorem C7_view_state_kept_and_frozen_by_failure:
  "isFlipped (mount i) = False \<and> isDispenserOpen (mount i) = False \<and>
   isDispenserOpen (run (mount i) evs) = False \<and>
   (StampCard s = Inr (CardView modal flipped preview foot back) \<longrightarrow>
      isFlipped (step s (Click Surface (HTMLElement ''DIV''))) = (\<not> isFlipped s)) \<and>
   (n < length (inFlight s) \<longrightarrow>
      isFlipped (run (step s (Rejected n)) evs) = isFlipped s \<and>
      isDispenserOpen (run (step s (Rejected n)) evs) = isDispenserOpen s \<and>
      StampCard (run (step s (Rejected n)) evs)
        = Inr (ErrorText ''Failed to fetch stamp information.'')) \<and>
   isFlipped (step s (Props j)) = isFlipped s \<and>
   isDispenserOpen (step s (Props j)) = isDispenserOpen s"
proof -
  have start: "isFlipped (mount i) = False \<and> isDispenserOpen (mount i) = False"
    by (simp add: mount_def)
  then have closed: "isDispenserOpen (run (mount i) evs) = False"
    using modal_closed_run [of "mount i" evs] by simp
  have tap: "isFlipped (step s (Click Surface (HTMLElement ''DIV''))) = (\<not> isFlipped s)"
    if drawn: "StampCard s = Inr (CardView modal flipped preview foot back)"
  proof -
    have "\<not> truthy (error s)"
      using drawn by (auto simp: StampCard_def split: if_splits)
    then show ?thesis
      by (simp add: click_def onClick_def handleClick_def interactiveElements_def)
  qed
  have frozen: "isFlipped (run (step s (Rejected n)) evs) = isFlipped s \<and>
      isDispenserOpen (run (step s (Rejected n)) evs) = isDispenserOpen s \<and>
      StampCard (run (step s (Rejected n)) evs)
        = Inr (ErrorText ''Failed to fetch stamp information.'')"
    if n: "n < length (inFlight s)"
  proof -
    have err: "error (step s (Rejected n)) = Some ''Failed to fetch stamp information.''"
      using n by (simp add: fetchRejected_def)
    have same: "isFlipped (step s (Rejected n)) = isFlipped s \<and>
                isDispenserOpen (step s (Rejected n)) = isDispenserOpen s"
      by (simp add: fetchRejected_def)
    from frozen_run [OF err, of evs] same error_shown [OF error_run [OF err, of evs]]
    show ?thesis by simp
  qed
  have kept: "isFlipped (step s (Props j)) = isFlipped s \<and>
              isDispenserOpen (step s (Props j)) = isDispenserOpen s"
    by (simp add: setStampId_def)
  from start closed tap frozen kept show ?thesis by blast
qed

text \<open>
  C7 at a run: a tap on the fresh card, then a new identifier; and a failed fetch followed
  by a tap, the Back button, a new identifier and its record.
\<close>

theorem C7_view_state_kept_and_frozen_by_failure_witness:
  "StampCard (mount ''A'') = Inr (CardView False False Skeleton FooterSkeleton NoDispensers) \<and>
   isFlipped (step (mount ''A'') (Click Surface (HTMLElement ''DIV''))) = True \<and>
   isFlipped (step (step (mount ''A'') (Click Surface (HTMLElement ''DIV''))) (Props ''B'')) = True \<and>
   isDispenserOpen (step (step (mount ''A'') (Click Surface (HTMLElement ''DIV''))) (Props ''B'')) = False \<and>
   0 < length (inFlight (step (mount ''A'') (Click Surface (HTMLElement ''DIV'')))) \<and>
   isFlipped (run (step (step (mount ''A'') (Click Surface (HTMLElement ''DIV''))) (Rejected 0))
                [Click Surface (HTMLElement ''DIV''), Click BackButton (HTMLElement ''BUTTON''),
                 Props ''B'', Resolved 0 htmlRecord]) = True"
proof -
  have h: "StampCard (mount ''A'') = Inr (CardView False False Skeleton FooterSkeleton NoDispensers)"
    by (simp add: StampCard_def renderStampContent_def mount_def truthy_def)
  have f0: "isFlipped (mount ''A'') = False" by (simp add: mount_def)
  note first = C7_view_state_kept_and_frozen_by_failure
    [of "''A''" "[]" "mount ''A''" False False Skeleton FooterSkeleton NoDispensers 0 "''B''"]
  note later = C7_view_state_kept_and_frozen_by_failure
    [of "''A''" "[Click Surface (HTMLElement ''DIV''), Click BackButton (HTMLElement ''BUTTON''),
                 Props ''B'', Resolved 0 htmlRecord]"
        "step (mount ''A'') (Click Surface (HTMLElement ''DIV''))"
        False False Skeleton FooterSkeleton NoDispensers 0 "''B''"]
  have a: "isFlipped (step (mount ''A'') (Click Surface (HTMLElement ''DIV''))) = True"
    using first h f0 by simp
  have b: "isFlipped (step (step (mount ''A'') (Click Surface (HTMLElement ''DIV''))) (Props ''B'')) = True"
    using later a by simp
  have "isDispenserOpen (step (mount ''A'') (Click Surface (HTMLElement ''DIV''))) = False"
    by (simp add: click_fields mount_def)
  then have c: "isDispenserOpen (step (step (mount ''A'') (Click Surface (HTMLElement ''DIV''))) (Props ''B'')) = False"
    using later by simp
  have d: "0 < length (inFlight (step (mount ''A'') (Click Surface (HTMLElement ''DIV''))))"
    by (simp add: click_fields mount_def)
  have e: "isFlipped (run (step (step (mount ''A'') (Click Surface (HTMLElement ''DIV''))) (Rejected 0))
                [Click Surface (HTMLElement ''DIV''), Click BackButton (HTMLElement ''BUTTON''),
                 Props ''B'', Resolved 0 htmlRecord]) = True"
    using later d a by blast
  from h a b c d e show ?thesis by blast
qed

subsection \<open>C8\<close>

text \<open>
  C8 as stated fails in its second part. A click on the Buy Art button, whose target is a
  \<open>BUTTON\<close>, turns a card on its front to its back.
\<close>

theorem C8_buy_button_click_flips:
  "''BUTTON'' \<in> set interactiveElements \<and>
   isFlipped (step (mount ''A'') (Resolved 0 pngRecord)) = False \<and>
   isFlipped (step (step (mount ''A'') (Resolved 0 pngRecord)) (Click BuyArtButton (HTMLElement ''BUTTON'')))
     = True"
  by (simp add: interactiveElements_def loaded_state click_def truthy_def handleClick_def
        onClick_def)

text \<open>
  C8, as the component behaves. For every click on the card surface whose target is an
  HTML element other than \<open>BUTTON\<close>, \<open>INPUT\<close>, \<open>SELECT\<close>, \<open>TEXTAREA\<close> and \<open>A\<close>, the
  orientation toggles exactly once. For every click whose target is one of these five
  elements the surface handler changes nothing: the orientation stays, except that the Back
  button sets it to Front and the Buy Art button sets it to Back.
\<close>

theorem C8_surface_toggle_skips_interactive_targets:
  "(\<not> truthy (error s) \<and> tagName \<notin> set interactiveElements \<longrightarrow>
      isFlipped (step s (Click Surface (HTMLElement tagName))) = (\<not> isFlipped s)) \<and>
   (tagName \<in> set interactiveElements \<longrightarrow>
      isFlipped (step s (Click Surface (HTMLElement tagName))) = isFlipped s \<and>
      isFlipped (step s (Click (CpidText w) (HTMLElement tagName))) = isFlipped s \<and>
      isFlipped (step s (Click (DispenserMenuItem k) (HTMLElement tagName))) = isFlipped s \<and>
      isFlipped (step s (Click (CopyIcon w) (HTMLElement tagName))) = isFlipped s \<and>
      (\<not> truthy (error s) \<longrightarrow>
         isFlipped (step s (Click BackButton (HTMLElement tagName))) = False) \<and>
      (\<not> truthy (error s) \<and> \<not> loading s \<and> stampData s \<noteq> None \<longrightarrow>
         isFlipped (step s (Click BuyArtButton (HTMLElement tagName))) = True))"
proof -
  have toggle: "isFlipped (step s (Click Surface (HTMLElement tagName))) = (\<not> isFlipped s)"
    if "\<not> truthy (error s)" "tagName \<notin> set interactiveElements"
    using that by (simp add: click_def handleClick_def onClick_def)
  have skip: "isFlipped (click c (HTMLElement tagName) s) =
                (if truthy (error s) then isFlipped s else isFlipped (onClick c s))"
    if "tagName \<in> set interactiveElements" for c
    using that by (simp add: click_def handleClick_interactive)
  show ?thesis
    using toggle by (auto simp: skip onClick_isFlipped)
qed

text \<open>
  C8 at three clicks: on a \<open>DIV\<close> of the surface, on a link, and on the Back button.
\<close>

theorem C8_surface_toggle_skips_interactive_targets_witness:
  "\<not> truthy (error (mount ''A'')) \<and> ''DIV'' \<notin> set interactiveElements \<and>
   isFlipped (step (mount ''A'') (Click Surface (HTMLElement ''DIV''))) = True \<and>
   ''A'' \<in> set interactiveElements \<and>
   isFlipped (step (mount ''A'') (Click Surface (HTMLElement ''A''))) = False \<and>
   isFlipped (step (step (mount ''A'') (Click Surface (HTMLElement ''DIV''))) (Click BackButton (HTMLElement ''BUTTON'')))
     = False"
proof -
  have h1: "\<not> truthy (error (mount ''A''))" by (simp add: mount_def truthy_def)
  have h2: "''DIV'' \<notin> set interactiveElements" by (simp add: interactiveElements_def)
  have h3: "''A'' \<in> set interactiveElements" by (simp add: interactiveElements_def)
  have h4: "''BUTTON'' \<in> set interactiveElements" by (simp add: interactiveElements_def)
  have f0: "isFlipped (mount ''A'') = False" by (simp add: mount_def)
  have a: "isFlipped (step (mount ''A'') (Click Surface (HTMLElement ''DIV''))) = True"
    using C8_surface_toggle_skips_interactive_targets [of "mount ''A''" "''DIV''"] h1 h2 f0
    by simp
  have b: "isFlipped (step (mount ''A'') (Click Surface (HTMLElement ''A''))) = False"
    using C8_surface_toggle_skips_interactive_targets [of "mount ''A''" "''A''"] h3 f0
    by simp
  have h5: "\<not> truthy (error (step (mount ''A'') (Click Surface (HTMLElement ''DIV''))))"
    using h1 by (simp add: click_fields)
  have c: "isFlipped (step (step (mount ''A'') (Click Surface (HTMLElement ''DIV''))) (Click BackButton (HTMLElement ''BUTTON'')))
     = False"
    using C8_surface_toggle_skips_interactive_targets
      [of "step (mount ''A'') (Click Surface (HTMLElement ''DIV''))" "''BUTTON''"] h4 h5
    by blast
  from h1 h2 a h3 b c show ?thesis by blast
qed

subsection \<open>C9\<close>

text \<open>
  C9 as stated fails. On a page without clipboard the handler throws before it raises the
  toast: the copy does not succeed and a click on the identifier text of a loaded card
  leaves no acknowledgement on the screen.
\<close>

theorem C9_no_clipboard_no_acknowledgement:
  "handleCopyAddress ClipboardAbsent ''A'' (step (mount ''A'') (Resolved 0 pngRecord)) = Inl TypeError \<and>
   toasts (step (mount ''A'') (Resolved 0 pngRecord)) = [] \<and>
   toasts (step (step (mount ''A'') (Resolved 0 pngRecord))
             (Click (CpidText ClipboardAbsent) (HTMLElement ''P''))) = []"
  by (simp add: copy_result mount_def fetchResolved_def stampDataEffect_fields click_def truthy_def
        onClick_def after_handler_def handleClick_def)

text \<open>
  C9, as the component behaves. For every text, on a page with a clipboard, the copy
  returns whether the clipboard write is granted or rejected, adds exactly one
  acknowledgement with a duration of 3000 ms, and changes neither the error state nor what
  the component draws. That acknowledgement is on the screen after \<open>ms\<close> milliseconds if and
  only if \<open>ms\<close> is below 3000. Two successive copies of the same text add two
  acknowledgements; when time passes between them, the first leaves the screen 3000 ms
  after the first copy while the second stays, and the second leaves 3000 ms after the
  second copy. On a page without clipboard the copy throws \<open>TypeError\<close>.
\<close>

theorem C9_copy_acknowledged_where_clipboard_exists:
  "handleCopyAddress ClipboardAbsent address s = Inl TypeError \<and>
   (w \<noteq> ClipboardAbsent \<longrightarrow>
      (\<exists>s1. handleCopyAddress w address s = Inr s1 \<and>
            toasts s1 = toasts s @ [\<lparr> options = pepeToast, raisedAt = clock s \<rparr>] \<and>
            error s1 = error s \<and> StampCard s1 = StampCard s)) \<and>
   duration pepeToast = 3000 \<and>
   (handleCopyAddress w address s = Inr s1 \<longrightarrow>
      (\<lparr> options = pepeToast, raisedAt = clock s \<rparr> \<in> set (toasts (timePasses ms s1))
         \<longleftrightarrow> ms < 3000)) \<and>
   (handleCopyAddress w address s = Inr s1 \<and> handleCopyAddress w' address s1 = Inr s2 \<longrightarrow>
      toasts s2 = toasts s @ [\<lparr> options = pepeToast, raisedAt = clock s \<rparr>,
                              \<lparr> options = pepeToast, raisedAt = clock s \<rparr>]) \<and>
   (handleCopyAddress w address s = Inr s1 \<and>
    handleCopyAddress w' address (timePasses ms s1) = Inr s2 \<and> 0 < ms \<and> ms < 3000 \<longrightarrow>
      \<lparr> options = pepeToast, raisedAt = clock s \<rparr> \<in> set (toasts s2) \<and>
      \<lparr> options = pepeToast, raisedAt = clock s + ms \<rparr> \<in> set (toasts s2) \<and>
      \<lparr> options = pepeToast, raisedAt = clock s \<rparr> \<notin> set (toasts (timePasses (3000 - ms) s2)) \<and>
      \<lparr> options = pepeToast, raisedAt = clock s + ms \<rparr> \<in> set (toasts (timePasses (3000 - ms) s2)) \<and>
      \<lparr> options = pepeToast, raisedAt = clock s + ms \<rparr> \<notin> set (toasts (timePasses 3000 s2)))"
proof -
  have dur: "duration pepeToast = 3000" by (simp add: pepeToast_def)
  have absent: "handleCopyAddress ClipboardAbsent address s = Inl TypeError"
    by (rule copy_result)
  have present: "\<exists>s1. handleCopyAddress w address s = Inr s1 \<and>
            toasts s1 = toasts s @ [\<lparr> options = pepeToast, raisedAt = clock s \<rparr>] \<and>
            error s1 = error s \<and> StampCard s1 = StampCard s"
    if "w \<noteq> ClipboardAbsent"
  proof -
    have "\<exists>s1. handleCopyAddress w address s = Inr s1"
      by (cases w) (use that in \<open>simp_all add: copy_result\<close>)
    then obtain s1 where s1: "handleCopyAddress w address s = Inr s1" ..
    from s1 copied_cases [OF s1] show ?thesis by blast
  qed
  have shown: "\<lparr> options = pepeToast, raisedAt = clock s \<rparr> \<in> set (toasts (timePasses ms s1))
         \<longleftrightarrow> ms < 3000"
    if c: "handleCopyAddress w address s = Inr s1"
    using copied_cases(1,2) [OF c] by (auto simp: timePasses_fields dur)
  have twice: "toasts s2 = toasts s @ [\<lparr> options = pepeToast, raisedAt = clock s \<rparr>,
                              \<lparr> options = pepeToast, raisedAt = clock s \<rparr>]"
    if c1: "handleCopyAddress w address s = Inr s1" and c2: "handleCopyAddress w' address s1 = Inr s2"
    using copied_cases(1,2) [OF c1] copied_cases(1) [OF c2] by simp
  have apart: "\<lparr> options = pepeToast, raisedAt = clock s \<rparr> \<in> set (toasts s2) \<and>
      \<lparr> options = pepeToast, raisedAt = clock s + ms \<rparr> \<in> set (toasts s2) \<and>
      \<lparr> options = pepeToast, raisedAt = clock s \<rparr> \<notin> set (toasts (timePasses (3000 - ms) s2)) \<and>
      \<lparr> options = pepeToast, raisedAt = clock s + ms \<rparr> \<in> set (toasts (timePasses (3000 - ms) s2)) \<and>
      \<lparr> options = pepeToast, raisedAt = clock s + ms \<rparr> \<notin> set (toasts (timePasses 3000 s2))"
    if c1: "handleCopyAddress w address s = Inr s1"
      and c2: "handleCopyAddress w' address (timePasses ms s1) = Inr s2"
      and ms: "0 < ms" "ms < 3000"
  proof -
    have t2: "toasts s2 = toasts (timePasses ms s1) @ [\<lparr> options = pepeToast, raisedAt = clock s + ms \<rparr>]"
      and k2: "clock s2 = clock s + ms"
      using copied_cases(1,2) [OF c2] copied_cases(2) [OF c1] by (simp_all add: timePasses_fields)
    have first: "\<lparr> options = pepeToast, raisedAt = clock s \<rparr> \<in> set (toasts (timePasses ms s1))"
      using shown [OF c1] ms by blast
    from t2 k2 first ms show ?thesis
      by (auto simp: timePasses_fields dur)
  qed
  from absent present dur shown twice apart show ?thesis by blast
qed

text \<open>
  C9 at two copies of one address on a fresh card, the second 1000 ms after the first and
  with a rejected clipboard write: after another 2000 ms only the second acknowledgement is
  on the screen.
\<close>

theorem C9_copy_acknowledged_where_clipboard_exists_witness:
  "handleCopyAddress WriteGranted ''bc1qa'' (mount ''A'')
     = Inr (toast pepeToast ((mount ''A'')\<lparr> clipboard := ''bc1qa'' \<rparr>)) \<and>
   handleCopyAddress WriteRejected ''bc1qa''
       (timePasses 1000 (toast pepeToast ((mount ''A'')\<lparr> clipboard := ''bc1qa'' \<rparr>)))
     = Inr (toast pepeToast
              (timePasses 1000 (toast pepeToast ((mount ''A'')\<lparr> clipboard := ''bc1qa'' \<rparr>)))) \<and>
   (0::nat) < 1000 \<and> (1000::nat) < 3000 \<and>
   toasts (toast pepeToast
             (timePasses 1000 (toast pepeToast ((mount ''A'')\<lparr> clipboard := ''bc1qa'' \<rparr>))))
     = [\<lparr> options = pepeToast, raisedAt = 0 \<rparr>, \<lparr> options = pepeToast, raisedAt = 1000 \<rparr>] \<and>
   \<lparr> options = pepeToast, raisedAt = 0 \<rparr>
     \<notin> set (toasts (timePasses 2000 (toast pepeToast
               (timePasses 1000 (toast pepeToast ((mount ''A'')\<lparr> clipboard := ''bc1qa'' \<rparr>)))))) \<and>
   \<lparr> options = pepeToast, raisedAt = 1000 \<rparr>
     \<in> set (toasts (timePasses 2000 (toast pepeToast
               (timePasses 1000 (toast pepeToast ((mount ''A'')\<lparr> clipboard := ''bc1qa'' \<rparr>))))))"
proof -
  have c1: "handleCopyAddress WriteGranted ''bc1qa'' (mount ''A'')
     = Inr (toast pepeToast ((mount ''A'')\<lparr> clipboard := ''bc1qa'' \<rparr>))"
    by (rule copy_result)
  have c2: "handleCopyAddress WriteRejected ''bc1qa''
       (timePasses 1000 (toast pepeToast ((mount ''A'')\<lparr> clipboard := ''bc1qa'' \<rparr>)))
     = Inr (toast pepeToast
              (timePasses 1000 (toast pepeToast ((mount ''A'')\<lparr> clipboard := ''bc1qa'' \<rparr>))))"
    by (rule copy_result)
  have lo: "(0::nat) < 1000" and hi: "(1000::nat) < 3000" by simp_all
  have k0: "clock (mount ''A'') = 0" by (simp add: mount_def)
  have both: "toasts (toast pepeToast
             (timePasses 1000 (toast pepeToast ((mount ''A'')\<lparr> clipboard := ''bc1qa'' \<rparr>))))
     = [\<lparr> options = pepeToast, raisedAt = 0 \<rparr>, \<lparr> options = pepeToast, raisedAt = 1000 \<rparr>]"
    by (simp add: toast_def timePasses_def mount_def pepeToast_def)
  note apart = C9_copy_acknowledged_where_clipboard_exists
    [of "''bc1qa''" "mount ''A''" WriteGranted
        "toast pepeToast ((mount ''A'')\<lparr> clipboard := ''bc1qa'' \<rparr>)" 1000 WriteRejected
        "toast pepeToast
           (timePasses 1000 (toast pepeToast ((mount ''A'')\<lparr> clipboard := ''bc1qa'' \<rparr>)))"]
  have gone: "\<lparr> options = pepeToast, raisedAt = 0 \<rparr>
     \<notin> set (toasts (timePasses 2000 (toast pepeToast
               (timePasses 1000 (toast pepeToast ((mount ''A'')\<lparr> clipboard := ''bc1qa'' \<rparr>))))))"
    using apart c1 c2 lo hi k0 by simp
  have stays: "\<lparr> options = pepeToast, raisedAt = 1000 \<rparr>
     \<in> set (toasts (timePasses 2000 (toast pepeToast
               (timePasses 1000 (toast pepeToast ((mount ''A'')\<lparr> clipboard := ''bc1qa'' \<rparr>))))))"
    using apart c1 c2 lo hi k0 by simp
  from c1 c2 lo hi both gone stays show ?thesis by blast
qed

subsection \<open>C10\<close>

text \<open>
  C10. No event sets the loading flag; once an answer, a record or a rejection, has
  arrived, the flag is clear after every later sequence of events and the preview is never
  the loading placeholder again; an identifier change leaves the flag, the record and the
  preview as they are.
\<close>

theorem C10_loading_never_comes_back:
  "(loading (step s e) \<longrightarrow> loading s) \<and>
   (n < length (inFlight s) \<longrightarrow>
      \<not> loading (run (step s (Resolved n d)) evs) \<and>
      \<not> loading (run (step s (Rejected n)) evs) \<and>
      renderStampContent (run (step s (Resolved n d)) evs) \<noteq> Inr Skeleton) \<and>
   loading (step s (Props j)) = loading s \<and>
   stampData (step s (Props j)) = stampData s \<and>
   renderStampContent (step s (Props j)) = renderStampContent s"
proof -
  have once: "\<not> loading (run (step s (Resolved n d)) evs) \<and>
      \<not> loading (run (step s (Rejected n)) evs) \<and>
      renderStampContent (run (step s (Resolved n d)) evs) \<noteq> Inr Skeleton"
    if n: "n < length (inFlight s)"
  proof -
    have "\<not> loading (step s (Resolved n d))"
      using n by (simp add: fetchResolved_def stampDataEffect_fields)
    then have a: "\<not> loading (run (step s (Resolved n d)) evs)" by (rule loading_run)
    have "\<not> loading (step s (Rejected n))"
      using n by (simp add: fetchRejected_def)
    then have b: "\<not> loading (run (step s (Rejected n)) evs)" by (rule loading_run)
    from a b not_loading_no_skeleton [OF a] show ?thesis by blast
  qed
  have same: "loading (step s (Props j)) = loading s \<and>
      stampData (step s (Props j)) = stampData s \<and>
      renderStampContent (step s (Props j)) = renderStampContent s"
    by (simp add: setStampId_def renderStampContent_def)
  from loading_step [of s e] once same show ?thesis by blast
qed

text \<open>
  C10 at a run: the first record arrives and the identifier changes, so that a fetch is
  in flight while the first record is still drawn.
\<close>

theorem C10_loading_never_comes_back_witness:
  "loading (mount ''A'') \<and> 0 < length (inFlight (mount ''A'')) \<and>
   inFlight (run (step (mount ''A'') (Resolved 0 pngRecord)) [Props ''B'']) = [''B''] \<and>
   \<not> loading (run (step (mount ''A'') (Resolved 0 pngRecord)) [Props ''B'']) \<and>
   renderStampContent (run (step (mount ''A'') (Resolved 0 pngRecord)) [Props ''B''])
     = Inr (ImageElement ''data:image/png;base64,iVBORw0KGgo='')"
proof -
  have l: "loading (mount ''A'')" by (simp add: mount_def)
  have h: "0 < length (inFlight (mount ''A''))" by (simp add: mount_def)
  have p: "inFlight (run (step (mount ''A'') (Resolved 0 pngRecord)) [Props ''B'']) = [''B'']"
    by (simp add: concrete)
  note cleared = C10_loading_never_comes_back
    [of "mount ''A''" "Props ''B''" 0 pngRecord "[Props ''B'']"
        "''B''"]
  have a: "\<not> loading (run (step (mount ''A'') (Resolved 0 pngRecord)) [Props ''B''])"
    using cleared h by blast
  have r: "renderStampContent (run (step (mount ''A'') (Resolved 0 pngRecord)) [Props ''B''])
     = Inr (ImageElement ''data:image/png;base64,iVBORw0KGgo='')"
    by (simp add: concrete renderStampContent_def pngRecord_def startsWith_def
          convertBase64ToImage_def)
  from l h p a r show ?thesis by blast
qed

end
